theory Spec2Isabelle
  imports Main
begin

section \<open>Status codes and constants\<close>

text \<open>
  \<open>status_t\<close> is a C \<open>int\<close>: \<open>OK\<close> is 0 and an error is a negated \<open>errno\<close> value.
  \<open>EIO\<close> and \<open>ETIMEDOUT\<close> have their Linux values; \<open>AID_ROOT\<close> and \<open>AID_MEDIA_RW\<close> are
  the Android ids the source names (1023 is written out in the source's own comment).
\<close>

type_synonym status_t = int

definition OK :: status_t where
  [simp]: "OK = 0"

definition EIO :: int where
  "EIO = 5"

definition ETIMEDOUT :: int where
  "ETIMEDOUT = 110"

definition AID_ROOT :: int where
  "AID_ROOT = 0"

definition AID_MEDIA_RW :: int where
  "AID_MEDIA_RW = 1023"

definition kSdcardFsPath :: string where
  "kSdcardFsPath = ''/system/bin/sdcard''"

section \<open>Formatting\<close>

text \<open>
  \<open>StringPrintf\<close> with \<open>%s\<close> is concatenation; \<open>%d\<close> prints a C \<open>int\<close> in decimal, with
  a leading minus sign when negative.
\<close>

definition digit_char :: "nat \<Rightarrow> char" where
  "digit_char n = ''0123456789'' ! (n mod 10)"

fun digits :: "nat \<Rightarrow> string" where
  "digits n = (if n < 10 then [digit_char n] else digits (n div 10) @ [digit_char (n mod 10)])"

declare digits.simps [simp del]

definition format_d :: "int \<Rightarrow> string" where
  "format_d i = (if i < 0 then CHR ''-'' # digits (nat (- i)) else digits (nat i))"

section \<open>The volume object\<close>

text \<open>
  Modelled from the spec: the \<open>MountFlags\<close> enumeration is declared in VolumeBase.h, which
  is not part of the sources at hand. The spec names the two flags the code tests,
  "primary" and "visible"; the flag word is modelled as the set of flags that are set, so
  that the source's \<open>getMountFlags() & MountFlags::kPrimary\<close> is membership.
\<close>

datatype MountFlags = kPrimary | kVisible

text \<open>
  The fields of \<open>EmulatedVolume\<close> together with the fields of its base class that the
  code reads through getters (\<open>getMountFlags\<close>, \<open>getMountUserId\<close>, \<open>getPath\<close>,
  \<open>getInternalPath\<close>, \<open>getMountCallback\<close>, \<open>getId\<close>). The callback is the registered
  \<open>onVolumeChecking\<close> listener: given the external and the internal path it leaves the
  \<open>is_ready\<close> flag set or not.
\<close>

record EmulatedVolume =
  mId :: string
  mMountFlags :: "MountFlags set"
  mMountUserId :: int
  mPath :: string
  mInternalPath :: string
  mMountCallback :: "(string \<Rightarrow> string \<Rightarrow> bool) option"
  mRawPath :: string
  mLabel :: string
  mFuseMounted :: bool
  mUseSdcardFs :: bool
  mSdcardFsDefault :: string
  mSdcardFsRead :: string
  mSdcardFsWrite :: string
  mSdcardFsFull :: string

text \<open>
  The first constructor (emulated storage on the internal data partition). The result of
  \<open>IsFilesystemSupported("sdcardfs")\<close> is passed in; the base-class fields start out
  empty, with no flags, no callback and the unknown user \<open>-1\<close>.
\<close>

definition EmulatedVolume_new :: "string \<Rightarrow> int \<Rightarrow> bool \<Rightarrow> EmulatedVolume" where
  "EmulatedVolume_new rawPath userId sdcardfsSupported =
     \<lparr> mId = ''emulated;'' @ format_d userId,
       mMountFlags = {},
       mMountUserId = - 1,
       mPath = [],
       mInternalPath = [],
       mMountCallback = None,
       mRawPath = rawPath,
       mLabel = ''emulated'',
       mFuseMounted = False,
       mUseSdcardFs = sdcardfsSupported,
       mSdcardFsDefault = [],
       mSdcardFsRead = [],
       mSdcardFsWrite = [],
       mSdcardFsFull = [] \<rparr>"

definition getLabel :: "EmulatedVolume \<Rightarrow> string" where
  "getLabel v = (if kPrimary \<in> mMountFlags v then ''emulated'' else mLabel v)"

section \<open>The environment of the volume\<close>

text \<open>
  Every call that leaves the class is recorded, in order, in a trace. The arguments are
  those of the call; \<open>fs_prepare_dir\<close> is recorded with its mode, owner and group.
\<close>

datatype event =
    FsPrepareDirEv string int int int
  | AccessEv string
  | BindMountEv string string
  | UnmountTreeEv string
  | ForceUnmountEv string
  | RmdirEv string
  | GetDeviceEv string
  | ForkEv
  | ExeclEv string "string list"
  | UsleepEv nat
  | WaitpidEv int
  | MountUserFuseEv int string string
  | UnmountUserFuseEv int string string
  | OnVolumeCheckingEv string string
  | FdResetEv
  | KillProcessesUsingPathEv string

text \<open>
  The state outside the object: the mount table (the paths something is mounted on), the
  bridge instances that are running (user, internal path, label), the boot-time clock in
  nanoseconds, \<open>errno\<close>, and the trace.
\<close>

record world =
  mounts :: "string list"
  bridges :: "(int \<times> string \<times> string) list"
  clock :: int
  errno :: int
  trace :: "event list"

text \<open>What \<open>fork\<close> gives the parent: \<open>-1\<close> with an \<open>errno\<close>, or the positive pid of the child.\<close>

datatype fork_result = ForkFailed int | ForkChild nat

text \<open>
  The collaborators are parameters. Each one may answer differently in different states
  of the world; a call that returns a status answers with the pair of its return value
  and the \<open>errno\<close> it leaves behind. \<open>ext_usleep_overrun\<close> is the time, in nanoseconds, a
  sleep lasts beyond what was asked for. \<open>prop_fuse\<close> is the value
  \<open>GetBoolProperty(kPropFuse, false)\<close> reads.
\<close>

record env =
  prop_fuse :: bool
  ext_fs_prepare_dir :: "world \<Rightarrow> string \<Rightarrow> int \<times> int"
  ext_access :: "world \<Rightarrow> string \<Rightarrow> int \<times> int"
  ext_BindMount :: "world \<Rightarrow> string \<Rightarrow> string \<Rightarrow> status_t \<times> int"
  ext_UnmountTree :: "world \<Rightarrow> string \<Rightarrow> status_t \<times> int"
  ext_ForceUnmount :: "world \<Rightarrow> string \<Rightarrow> status_t \<times> int"
  ext_GetDevice :: "world \<Rightarrow> string \<Rightarrow> int"
  ext_fork :: "world \<Rightarrow> fork_result"
  ext_usleep_overrun :: "world \<Rightarrow> nat"
  ext_MountUserFuse :: "world \<Rightarrow> int \<Rightarrow> string \<Rightarrow> string \<Rightarrow> int \<times> int"
  ext_UnmountUserFuse :: "world \<Rightarrow> int \<Rightarrow> string \<Rightarrow> string \<Rightarrow> status_t \<times> int"

definition log_event :: "event \<Rightarrow> world \<Rightarrow> world" where
  "log_event ev w = w\<lparr>trace := trace w @ [ev]\<rparr>"

definition call :: "event \<Rightarrow> int \<times> int \<Rightarrow> world \<Rightarrow> int \<times> world" where
  "call ev r w = (fst r, (log_event ev w)\<lparr>errno := snd r\<rparr>)"

text \<open>
  Modelled from the spec: the mount primitives, the bridge lifecycle and the process
  killer live in Utils.cpp and Process.cpp, which are not part of the sources at hand; the
  spec gives them as \<open>bindMount\<close>, \<open>forceUnmountTree\<close>, \<open>killProcessesUsingPath\<close>,
  \<open>prepareDirectory\<close>, \<open>queryDeviceIdentity\<close>, \<open>startUserBridge\<close> and \<open>stopUserBridge\<close>.
  Whether a call succeeds is the environment's choice. A bind mount that succeeds puts its
  target into the mount table; a tree unmount that succeeds takes out the path and every
  mount point below it; a forced unmount that succeeds takes out the path; starting and
  stopping the bridge adds and removes the bridge instance. A failed call changes neither.
\<close>

definition fs_prepare_dir :: "env \<Rightarrow> string \<Rightarrow> int \<Rightarrow> int \<Rightarrow> int \<Rightarrow> world \<Rightarrow> int \<times> world" where
  "fs_prepare_dir E path mode uid gid w =
     call (FsPrepareDirEv path mode uid gid) (ext_fs_prepare_dir E w path) w"

definition access :: "env \<Rightarrow> string \<Rightarrow> world \<Rightarrow> int \<times> world" where
  "access E path w = call (AccessEv path) (ext_access E w path) w"

definition BindMount :: "env \<Rightarrow> string \<Rightarrow> string \<Rightarrow> world \<Rightarrow> status_t \<times> world" where
  "BindMount E source target w =
     (let r = call (BindMountEv source target) (ext_BindMount E w source target) w in
      (fst r, if fst r = OK then (snd r)\<lparr>mounts := List.insert target (mounts (snd r))\<rparr>
              else snd r))"

definition below :: "string \<Rightarrow> string \<Rightarrow> bool" where
  "below p m = (m = p \<or> take (Suc (length p)) m = p @ ''/'')"

definition UnmountTree :: "env \<Rightarrow> string \<Rightarrow> world \<Rightarrow> status_t \<times> world" where
  "UnmountTree E path w =
     (let r = call (UnmountTreeEv path) (ext_UnmountTree E w path) w in
      (fst r, if fst r = OK then (snd r)\<lparr>mounts := filter (\<lambda>m. \<not> below path m) (mounts (snd r))\<rparr>
              else snd r))"

definition ForceUnmount :: "env \<Rightarrow> string \<Rightarrow> world \<Rightarrow> status_t \<times> world" where
  "ForceUnmount E path w =
     (let r = call (ForceUnmountEv path) (ext_ForceUnmount E w path) w in
      (fst r, if fst r = OK then (snd r)\<lparr>mounts := removeAll path (mounts (snd r))\<rparr>
              else snd r))"

definition rmdir :: "string \<Rightarrow> world \<Rightarrow> world" where
  "rmdir path w = log_event (RmdirEv path) w"

definition GetDevice :: "env \<Rightarrow> string \<Rightarrow> world \<Rightarrow> int \<times> world" where
  "GetDevice E path w = (ext_GetDevice E w path, log_event (GetDeviceEv path) w)"

definition KillProcessesUsingPath :: "string \<Rightarrow> world \<Rightarrow> world" where
  "KillProcessesUsingPath path w = log_event (KillProcessesUsingPathEv path) w"

definition MountUserFuse :: "env \<Rightarrow> int \<Rightarrow> string \<Rightarrow> string \<Rightarrow> world \<Rightarrow> int \<times> world" where
  "MountUserFuse E user_id absolute_lower_path relative_upper_path w =
     (let r = call (MountUserFuseEv user_id absolute_lower_path relative_upper_path)
                (ext_MountUserFuse E w user_id absolute_lower_path relative_upper_path) w in
      (fst r, if fst r = 0
              then (snd r)\<lparr>bridges := List.insert (user_id, absolute_lower_path, relative_upper_path)
                                        (bridges (snd r))\<rparr>
              else snd r))"

definition UnmountUserFuse :: "env \<Rightarrow> int \<Rightarrow> string \<Rightarrow> string \<Rightarrow> world \<Rightarrow> status_t \<times> world" where
  "UnmountUserFuse E user_id absolute_lower_path relative_upper_path w =
     (let r = call (UnmountUserFuseEv user_id absolute_lower_path relative_upper_path)
                (ext_UnmountUserFuse E w user_id absolute_lower_path relative_upper_path) w in
      (fst r, if fst r = OK
              then (snd r)\<lparr>bridges := removeAll (user_id, absolute_lower_path, relative_upper_path)
                                        (bridges (snd r))\<rparr>
              else snd r))"

definition onVolumeChecking :: "(string \<Rightarrow> string \<Rightarrow> bool) \<Rightarrow> string \<Rightarrow> string \<Rightarrow> world \<Rightarrow> bool \<times> world" where
  "onVolumeChecking callback path internalPath w =
     (callback path internalPath, log_event (OnVolumeCheckingEv path internalPath) w)"

definition fd_reset :: "world \<Rightarrow> world" where
  "fd_reset w = log_event FdResetEv w"

definition waitpid :: "int \<Rightarrow> world \<Rightarrow> world" where
  "waitpid pid w = log_event (WaitpidEv pid) w"

text \<open>
  \<open>usleep\<close> lets at least the requested number of microseconds pass; \<open>systemTime\<close> reads
  the clock. \<open>nanoseconds_to_milliseconds\<close> is the C++ division by 1000000 on a signed
  64-bit value, which truncates towards zero.
\<close>

definition usleep :: "env \<Rightarrow> nat \<Rightarrow> world \<Rightarrow> world" where
  "usleep E us w =
     (log_event (UsleepEv us) w)\<lparr>clock := clock w + int us * 1000 + int (ext_usleep_overrun E w)\<rparr>"

definition systemTime :: "world \<Rightarrow> int" where
  "systemTime w = clock w"

definition nanoseconds_to_milliseconds :: "int \<Rightarrow> int" where
  "nanoseconds_to_milliseconds secs =
     (if 0 \<le> secs then secs div 1000000 else - ((- secs) div 1000000))"

section \<open>Bind mounts\<close>

text \<open>
  \<open>doFuseBindMount\<close>: create the source directory on the lower file system when it is not
  there yet, then bind mount source on target.
\<close>

definition doFuseBindMount :: "env \<Rightarrow> string \<Rightarrow> string \<Rightarrow> world \<Rightarrow> status_t \<times> world" where
  "doFuseBindMount E source target w =
     (case access E source w of (a, w1) \<Rightarrow>
        if a \<noteq> 0 then
          (case fs_prepare_dir E source 505 AID_MEDIA_RW AID_MEDIA_RW w1 of (p, w2) \<Rightarrow>
             if p \<noteq> 0 then (- errno w2, w2)
             else (case BindMount E source target w2 of (status, w3) \<Rightarrow>
                     if status \<noteq> OK then (status, w3) else (OK, w3)))
        else (case BindMount E source target w1 of (status, w3) \<Rightarrow>
                if status \<noteq> OK then (status, w3) else (OK, w3)))"

definition mountFuseBindMounts :: "env \<Rightarrow> EmulatedVolume \<Rightarrow> world \<Rightarrow> status_t \<times> world" where
  "mountFuseBindMounts E v w =
     (let label = getLabel v;
          userId = mMountUserId v;
          androidSource =
            (if mUseSdcardFs v
             then ''/mnt/runtime/default/'' @ label @ ''/'' @ format_d userId @ ''/Android''
             else ''/'' @ mRawPath v @ ''/'' @ format_d userId @ ''/Android'');
          androidTarget =
            ''/mnt/user/'' @ format_d userId @ ''/'' @ label @ ''/'' @ format_d userId @ ''/Android'';
          s1 = doFuseBindMount E androidSource androidTarget w
      in if fst s1 \<noteq> OK then (fst s1, snd s1)
         else if \<not> mUseSdcardFs v then (OK, snd s1)
         else
           (let installerSource =
                  ''/mnt/runtime/write/'' @ label @ ''/'' @ format_d userId @ ''/Android/obb'';
                installerTarget =
                  ''/mnt/installer/'' @ format_d userId @ ''/'' @ label @ ''/'' @ format_d userId
                    @ ''/Android/obb'';
                s2 = doFuseBindMount E installerSource installerTarget (snd s1)
            in if fst s2 \<noteq> OK then (fst s2, snd s2) else (OK, snd s2)))"

definition unmountFuseBindMounts :: "env \<Rightarrow> EmulatedVolume \<Rightarrow> world \<Rightarrow> status_t \<times> world" where
  "unmountFuseBindMounts E v w =
     (let label = getLabel v;
          userId = mMountUserId v;
          w1 = (if mUseSdcardFs v
                then snd (UnmountTree E
                       (''/mnt/installer/'' @ format_d userId @ ''/'' @ label @ ''/''
                          @ format_d userId @ ''/Android/obb'') w)
                else w);
          androidTarget =
            ''/mnt/user/'' @ format_d userId @ ''/'' @ label @ ''/'' @ format_d userId @ ''/Android'';
          s = UnmountTree E androidTarget w1
      in if fst s \<noteq> OK then (fst s, snd s) else (OK, snd s))"

section \<open>Unmounting\<close>

text \<open>
  \<open>doUnmount\<close>: kill the processes that use the volume, take down the bind mounts and the
  bridge when the bridge is mounted, and, for user 0 on an sdcardfs device, the four
  sdcardfs views. The status of \<open>unmountFuseBindMounts\<close> and of the forced unmounts is
  not looked at.
\<close>

definition doUnmount :: "env \<Rightarrow> EmulatedVolume \<Rightarrow> world \<Rightarrow> status_t \<times> EmulatedVolume \<times> world" where
  "doUnmount E v w =
     (let userId = mMountUserId v;
          w1 = (if mFuseMounted v
                then KillProcessesUsingPath (mPath v @ ''/'' @ format_d (mMountUserId v)) w
                else KillProcessesUsingPath (mPath v) w)
      in case (if mFuseMounted v
               then (let label = getLabel v;
                         w2 = snd (unmountFuseBindMounts E v w1)
                     in case UnmountUserFuse E userId (mInternalPath v) label w2 of (st, w3) \<Rightarrow>
                          if st \<noteq> OK then (Some (- errno w3), v, w3)
                          else (None, v\<lparr>mFuseMounted := False\<rparr>, w3))
               else (None, v, w1)) of
           (Some err, v1, w4) \<Rightarrow> (err, v1, w4)
         | (None, v1, w4) \<Rightarrow>
             if mMountUserId v1 \<noteq> 0 \<or> \<not> mUseSdcardFs v1 then (OK, v1, w4)
             else
               (let w5 = snd (ForceUnmount E (mSdcardFsDefault v1) w4);
                    w6 = snd (ForceUnmount E (mSdcardFsRead v1) w5);
                    w7 = snd (ForceUnmount E (mSdcardFsWrite v1) w6);
                    w8 = snd (ForceUnmount E (mSdcardFsFull v1) w7);
                    w9 = rmdir (mSdcardFsDefault v1) w8;
                    w10 = rmdir (mSdcardFsRead v1) w9;
                    w11 = rmdir (mSdcardFsWrite v1) w10;
                    w12 = rmdir (mSdcardFsFull v1) w11
                in (OK, v1\<lparr>mSdcardFsDefault := [], mSdcardFsRead := [],
                            mSdcardFsWrite := [], mSdcardFsFull := []\<rparr>, w12)))"

section \<open>Mounting\<close>

text \<open>
  The arguments of the \<open>execl\<close> call in the forked child, after the program path: the
  \<open>argv\<close> of the sdcardfs driver, with \<open>argv[0]\<close> the program path again.
\<close>

definition sdcardfs_argv :: "string \<Rightarrow> string \<Rightarrow> string list" where
  "sdcardfs_argv rawPath label =
     [kSdcardFsPath, ''-u'', ''1023'', ''-g'', ''1023'', ''-m'', ''-w'', ''-G'', ''-i'', ''-o'',
      rawPath, label]"

text \<open>
  The wait for sdcardfs: while the device of the full view is still the one seen before
  the fork (\<open>before_dev\<close>, the source's \<open>before\<close>), sleep 50ms and give up with
  \<open>-ETIMEDOUT\<close> once more than 5000ms have passed since \<open>start\<close>. \<open>None\<close> is the normal
  exit of the loop, \<open>Some\<close> the early return. The clock is a signed 64-bit count of
  nanoseconds since boot, far from its bounds, and is modelled as an integer.
\<close>

function wait_for_sdcardfs :: "env \<Rightarrow> int \<Rightarrow> string \<Rightarrow> int \<Rightarrow> world \<Rightarrow> status_t option \<times> world" where
  "wait_for_sdcardfs E before_dev full start w =
     (case GetDevice E full w of (dev, w1) \<Rightarrow>
        if before_dev = dev then
          (let w2 = usleep E 50000 w1;
               now = systemTime w2
           in if nanoseconds_to_milliseconds (now - start) > 5000
              then (Some (- ETIMEDOUT), w2)
              else wait_for_sdcardfs E before_dev full start w2)
        else (None, w1))"
  by pat_completeness auto
termination
  apply (relation "measure (\<lambda>(E, before_dev, full, start, w). nat (5001000000 - (clock w - start)))")
   apply simp
  apply (auto simp: GetDevice_def log_event_def usleep_def systemTime_def
      nanoseconds_to_milliseconds_def split: if_splits)
  done

declare wait_for_sdcardfs.simps [simp del]

text \<open>
  Modelled from the spec: the sdcardfs driver is a program of its own. Once the device of
  the full view has changed, "the overlay has mounted": the four views
  \<open>/mnt/runtime/{default,read,write,full}/<label>\<close> are in the mount table.
\<close>

definition sdcardfs_mounted :: "string \<Rightarrow> world \<Rightarrow> world" where
  "sdcardfs_mounted label w =
     w\<lparr>mounts := List.insert (''/mnt/runtime/default/'' @ label)
                 (List.insert (''/mnt/runtime/read/'' @ label)
                   (List.insert (''/mnt/runtime/write/'' @ label)
                     (List.insert (''/mnt/runtime/full/'' @ label) (mounts w))))\<rparr>"

text \<open>
  The sdcardfs block of \<open>doMount\<close>: fork, let the child exec the driver, wait for the
  device of the full view to change, reap the child. \<open>Some\<close> is an early return of
  \<open>doMount\<close> with that status.
\<close>

definition spawn_sdcardfs :: "env \<Rightarrow> EmulatedVolume \<Rightarrow> string \<Rightarrow> int \<Rightarrow> world \<Rightarrow> status_t option \<times> world" where
  "spawn_sdcardfs E v label before_dev w =
     (case ext_fork E w of
        ForkFailed e \<Rightarrow>
          (let w1 = (log_event ForkEv w)\<lparr>errno := e\<rparr> in (Some (- errno w1), w1))
      | ForkChild pid \<Rightarrow>
          (let w1 = log_event (ExeclEv kSdcardFsPath (sdcardfs_argv (mRawPath v) label))
                      (log_event ForkEv w);
               start = systemTime w1
           in case wait_for_sdcardfs E before_dev (mSdcardFsFull v) start w1 of
                (Some err, w2) \<Rightarrow> (Some err, w2)
              | (None, w2) \<Rightarrow> (None, waitpid (int pid + 1) (sdcardfs_mounted label w2))))"

text \<open>
  The four \<open>fs_prepare_dir\<close> calls joined by \<open>||\<close>: the first one that fails ends the
  evaluation. The result is whether one failed.
\<close>

definition prepare_mount_points :: "env \<Rightarrow> EmulatedVolume \<Rightarrow> world \<Rightarrow> bool \<times> world" where
  "prepare_mount_points E v w =
     (case fs_prepare_dir E (mSdcardFsDefault v) 448 AID_ROOT AID_ROOT w of (r1, w1) \<Rightarrow>
        if r1 \<noteq> 0 then (True, w1) else
     (case fs_prepare_dir E (mSdcardFsRead v) 448 AID_ROOT AID_ROOT w1 of (r2, w2) \<Rightarrow>
        if r2 \<noteq> 0 then (True, w2) else
     (case fs_prepare_dir E (mSdcardFsWrite v) 448 AID_ROOT AID_ROOT w2 of (r3, w3) \<Rightarrow>
        if r3 \<noteq> 0 then (True, w3) else
     (case fs_prepare_dir E (mSdcardFsFull v) 448 AID_ROOT AID_ROOT w3 of (r4, w4) \<Rightarrow>
        (r4 \<noteq> 0, w4)))))"

text \<open>
  The bridge block of \<open>doMount\<close>, entered when the FUSE property is on and the volume is
  visible: start the bridge, ask the callback, set up the bind mounts; roll back with
  \<open>doUnmount\<close> when the callback says not ready or a bind mount fails.
\<close>

definition mount_fuse :: "env \<Rightarrow> EmulatedVolume \<Rightarrow> string \<Rightarrow> world \<Rightarrow> status_t \<times> EmulatedVolume \<times> world" where
  "mount_fuse E v label w =
     (let user_id = mMountUserId v in
      case MountUserFuse E user_id (mInternalPath v) label w of (result, w1) \<Rightarrow>
        if result \<noteq> 0 then (- result, v, w1)
        else
          (let v1 = v\<lparr>mFuseMounted := True\<rparr>;
               c = (case mMountCallback v1 of
                      None \<Rightarrow> (True, w1)
                    | Some callback \<Rightarrow> onVolumeChecking callback (mPath v1) (mInternalPath v1) w1)
           in if \<not> fst c
              then (case doUnmount E v1 (fd_reset (snd c)) of (u, v2, w3) \<Rightarrow> (- EIO, v2, w3))
              else (case mountFuseBindMounts E v1 (snd c) of (res, w2) \<Rightarrow>
                      if res \<noteq> OK
                      then (case doUnmount E v1 (fd_reset w2) of (u, v2, w3) \<Rightarrow> (res, v2, w3))
                      else (res, v1, w2))))"

definition doMount :: "env \<Rightarrow> EmulatedVolume \<Rightarrow> world \<Rightarrow> status_t \<times> EmulatedVolume \<times> world" where
  "doMount E v w =
     (let label = getLabel v;
          isVisible = (kVisible \<in> mMountFlags v);
          v1 = v\<lparr>mSdcardFsDefault := ''/mnt/runtime/default/'' @ label,
                 mSdcardFsRead := ''/mnt/runtime/read/'' @ label,
                 mSdcardFsWrite := ''/mnt/runtime/write/'' @ label,
                 mSdcardFsFull := ''/mnt/runtime/full/'' @ label,
                 mInternalPath := mRawPath v,
                 mPath := ''/storage/'' @ label\<rparr>
      in case prepare_mount_points E v1 w of (failed, w1) \<Rightarrow>
           if failed then (- errno w1, v1, w1)
           else
             (case GetDevice E (mSdcardFsFull v1) w1 of (before_dev, w2) \<Rightarrow>
                (let isFuse = prop_fuse E in
                 case (if mUseSdcardFs v1 \<and> mMountUserId v1 = 0
                       then spawn_sdcardfs E v1 label before_dev w2
                       else (None, w2)) of
                   (Some err, w3) \<Rightarrow> (err, v1, w3)
                 | (None, w3) \<Rightarrow>
                     if isFuse \<and> isVisible then mount_fuse E v1 label w3
                     else (OK, v1, w3))))"

section \<open>Observing a call\<close>

text \<open>The events a call has added to the trace: what the trace holds beyond its old length.\<close>

definition emitted :: "world \<Rightarrow> world \<Rightarrow> event list" where
  "emitted w w' = drop (length (trace w)) (trace w')"

text \<open>
  \<open>precedes a b es\<close>: in \<open>es\<close>, every occurrence of \<open>b\<close> comes after an occurrence of \<open>a\<close>.
\<close>

fun precedes :: "'a \<Rightarrow> 'a \<Rightarrow> 'a list \<Rightarrow> bool" where
  "precedes a b [] = True"
| "precedes a b (x # xs) = (x \<noteq> b \<and> (x = a \<or> precedes a b xs))"

text \<open>The calls that unmount something.\<close>

fun is_unmount_call :: "event \<Rightarrow> bool" where
  "is_unmount_call (UnmountTreeEv p) = True"
| "is_unmount_call (UnmountUserFuseEv u a l) = True"
| "is_unmount_call (ForceUnmountEv p) = True"
| "is_unmount_call e = False"

text \<open>
  \<open>emits P w w'\<close>: the trace of \<open>w'\<close> is the trace of \<open>w\<close> followed by events that all
  satisfy \<open>P\<close>.
\<close>

definition emits :: "(event \<Rightarrow> bool) \<Rightarrow> world \<Rightarrow> world \<Rightarrow> bool" where
  "emits P w w' = (take (length (trace w)) (trace w') = trace w \<and> list_all P (emitted w w'))"

text \<open>
  The calls of the first part of \<open>doMount\<close>, up to and including the sdcardfs block, for
  a volume with the given raw path and label: preparing a view directory, reading the
  device of the full view, forking, the child's \<open>execl\<close> of the sdcardfs driver with
  exactly the argument list of \<open>sdcardfs_argv\<close>, sleeping 50ms, and reaping the child.
\<close>

fun spin_up_event :: "string \<Rightarrow> string \<Rightarrow> event \<Rightarrow> bool" where
  "spin_up_event raw label (FsPrepareDirEv p m u g) = (m = 448 \<and> u = AID_ROOT \<and> g = AID_ROOT)"
| "spin_up_event raw label (GetDeviceEv p) = (p = ''/mnt/runtime/full/'' @ label)"
| "spin_up_event raw label ForkEv = True"
| "spin_up_event raw label (ExeclEv prog args) =
     (prog = kSdcardFsPath \<and> args = sdcardfs_argv raw label)"
| "spin_up_event raw label (UsleepEv us) = (us = 50000)"
| "spin_up_event raw label (WaitpidEv pid) = True"
| "spin_up_event raw label e = False"

text \<open>The calls of the bridge block of \<open>doMount\<close>, the rollback included.\<close>

fun bridge_event :: "event \<Rightarrow> bool" where
  "bridge_event (GetDeviceEv p) = False"
| "bridge_event ForkEv = False"
| "bridge_event (ExeclEv prog args) = False"
| "bridge_event (UsleepEv us) = False"
| "bridge_event (WaitpidEv pid) = False"
| "bridge_event e = True"

text \<open>
  The object once \<open>doMount\<close> has stored the four view paths, the internal path and the
  path (the assignments that open the function).
\<close>

definition stored_paths :: "EmulatedVolume \<Rightarrow> EmulatedVolume" where
  "stored_paths v =
     v\<lparr>mSdcardFsDefault := ''/mnt/runtime/default/'' @ getLabel v,
       mSdcardFsRead := ''/mnt/runtime/read/'' @ getLabel v,
       mSdcardFsWrite := ''/mnt/runtime/write/'' @ getLabel v,
       mSdcardFsFull := ''/mnt/runtime/full/'' @ getLabel v,
       mInternalPath := mRawPath v,
       mPath := ''/storage/'' @ getLabel v\<rparr>"

text \<open>
  The first part of \<open>doMount\<close>, from the preparation of the view directories up to and
  including the sdcardfs block: \<open>Some\<close> is an early return of \<open>doMount\<close> with that status,
  \<open>None\<close> means the bridge block is reached.
\<close>

definition mount_spin_up :: "env \<Rightarrow> EmulatedVolume \<Rightarrow> world \<Rightarrow> status_t option \<times> world" where
  "mount_spin_up E v w =
     (case prepare_mount_points E (stored_paths v) w of (failed, w1) \<Rightarrow>
        if failed then (Some (- errno w1), w1)
        else (case GetDevice E (''/mnt/runtime/full/'' @ getLabel v) w1 of (before_dev, w2) \<Rightarrow>
                if mUseSdcardFs v \<and> mMountUserId v = 0
                then spawn_sdcardfs E (stored_paths v) (getLabel v) before_dev w2
                else (None, w2)))"

text \<open>
  The condition under which \<open>doUnmount\<close> returns early with \<open>-errno\<close>: the bridge is
  mounted and \<open>UnmountUserFuse\<close>, called after the processes were killed and the bind
  mounts taken down, does not return \<open>OK\<close>.
\<close>

definition bridge_stop_failed :: "env \<Rightarrow> EmulatedVolume \<Rightarrow> world \<Rightarrow> bool" where
  "bridge_stop_failed E v w =
     (mFuseMounted v \<and>
      fst (UnmountUserFuse E (mMountUserId v) (mInternalPath v) (getLabel v)
            (snd (unmountFuseBindMounts E v
               (KillProcessesUsingPath (mPath v @ ''/'' @ format_d (mMountUserId v)) w)))) \<noteq> OK)"

text \<open>
  An instance with nothing of its own mounted: the bridge is not mounted and, where the
  instance is the one that takes down the sdcardfs views (user 0 on an sdcardfs device),
  it holds no view paths.
\<close>

definition unmounted :: "EmulatedVolume \<Rightarrow> bool" where
  "unmounted v =
     (\<not> mFuseMounted v \<and>
      (mMountUserId v = 0 \<and> mUseSdcardFs v \<longrightarrow>
         mSdcardFsDefault v = [] \<and> mSdcardFsRead v = [] \<and>
         mSdcardFsWrite v = [] \<and> mSdcardFsFull v = []))"

text \<open>
  The argument list as the specification words it: uid and gid 1023, multi-user mode,
  write-permission mode, group-derived permission mode, ID-based resolution mode, then the
  backing path and the label.
\<close>

definition spec_sdcardfs_argv :: "string \<Rightarrow> string \<Rightarrow> string list" where
  "spec_sdcardfs_argv rawPath label =
     [kSdcardFsPath, ''-u'', ''1023'', ''-g'', ''1023'', ''-m'', ''-w'', ''-G'', ''-i'',
      rawPath, label]"

section \<open>Concrete instances\<close>

text \<open>
  An environment in which every call succeeds and the device of a path changes as soon as
  the sdcardfs child has been forked; one in which the device never changes; one in which
  the primary bind mount cannot be taken down; one in which the bridge cannot be stopped.
\<close>

definition env_ok :: env where
  "env_ok =
     \<lparr> prop_fuse = True,
       ext_fs_prepare_dir = (\<lambda>w p. (0, errno w)),
       ext_access = (\<lambda>w p. (0, errno w)),
       ext_BindMount = (\<lambda>w s t. (OK, errno w)),
       ext_UnmountTree = (\<lambda>w p. (OK, errno w)),
       ext_ForceUnmount = (\<lambda>w p. (OK, errno w)),
       ext_GetDevice = (\<lambda>w p. if ForkEv \<in> set (trace w) then 1 else 0),
       ext_fork = (\<lambda>w. ForkChild 41),
       ext_usleep_overrun = (\<lambda>w. 0),
       ext_MountUserFuse = (\<lambda>w u a l. (0, errno w)),
       ext_UnmountUserFuse = (\<lambda>w u a l. (OK, errno w)) \<rparr>"

definition env_stuck :: env where
  "env_stuck = env_ok\<lparr>ext_GetDevice := (\<lambda>w p. 0)\<rparr>"

definition env_busy :: env where
  "env_busy = env_ok\<lparr>ext_UnmountTree := (\<lambda>w p. (- 16, 16))\<rparr>"


definition world0 :: world where
  "world0 = \<lparr> mounts = [], bridges = [], clock = 0, errno = 0, trace = [] \<rparr>"

text \<open>
  The primary emulated volume of user 0 on an sdcardfs device, visible, with a callback
  that never reports ready; and the volume of user 5 on a device without sdcardfs, with
  no callback.
\<close>

definition vol_owner :: EmulatedVolume where
  "vol_owner =
     (EmulatedVolume_new ''/data/media'' 0 True)
       \<lparr> mMountFlags := {kPrimary, kVisible}, mMountUserId := 0,
         mMountCallback := Some (\<lambda>path internalPath. False) \<rparr>"

definition vol_user5 :: EmulatedVolume where
  "vol_user5 =
     (EmulatedVolume_new ''/data/media'' 5 False)
       \<lparr> mMountFlags := {kVisible}, mMountUserId := 5 \<rparr>"

text \<open>The volume of user 5 once its bridge and its bind mount are up.\<close>

definition vol_user5_mounted :: EmulatedVolume where
  "vol_user5_mounted =
     vol_user5
       \<lparr> mPath := ''/storage/emulated'', mInternalPath := ''/data/media'',
         mFuseMounted := True,
         mSdcardFsDefault := ''/mnt/runtime/default/emulated'',
         mSdcardFsRead := ''/mnt/runtime/read/emulated'',
         mSdcardFsWrite := ''/mnt/runtime/write/emulated'',
         mSdcardFsFull := ''/mnt/runtime/full/emulated'' \<rparr>"

definition world_user5_mounted :: world where
  "world_user5_mounted =
     world0\<lparr> mounts := [''/mnt/user/5/emulated/5/Android'', ''/mnt/runtime/full/emulated''],
             bridges := [(5, ''/data/media'', ''emulated'')] \<rparr>"

text \<open>The primary volume of user 0 with the sdcardfs views, the bridge and both bind mounts up.\<close>

definition vol_owner_mounted :: EmulatedVolume where
  "vol_owner_mounted =
     vol_owner
       \<lparr> mPath := ''/storage/emulated'', mInternalPath := ''/data/media'',
         mFuseMounted := True,
         mSdcardFsDefault := ''/mnt/runtime/default/emulated'',
         mSdcardFsRead := ''/mnt/runtime/read/emulated'',
         mSdcardFsWrite := ''/mnt/runtime/write/emulated'',
         mSdcardFsFull := ''/mnt/runtime/full/emulated'' \<rparr>"

definition world_owner_mounted :: world where
  "world_owner_mounted =
     world0\<lparr> mounts := [''/mnt/installer/0/emulated/0/Android/obb'',
                        ''/mnt/user/0/emulated/0/Android'',
                        ''/mnt/runtime/default/emulated'', ''/mnt/runtime/read/emulated'',
                        ''/mnt/runtime/write/emulated'', ''/mnt/runtime/full/emulated''],
             bridges := [(0, ''/data/media'', ''emulated'')] \<rparr>"

section \<open>Facts about the environment\<close>

lemma format_d_digit: "0 \<le> i \<Longrightarrow> i < 10 \<Longrightarrow> format_d i = [digit_char (nat i)]"
  by (simp add: format_d_def digits.simps)

lemma format_d_0 [simp]: "format_d 0 = ''0''"
  by (simp add: format_d_digit digit_char_def)

lemma format_d_5 [simp]: "format_d 5 = ''5''"
  by (simp add: format_d_digit digit_char_def)

lemma log_event_proj [simp]:
  "trace (log_event ev w) = trace w @ [ev]"
  "mounts (log_event ev w) = mounts w"
  "bridges (log_event ev w) = bridges w"
  "clock (log_event ev w) = clock w"
  "errno (log_event ev w) = errno w"
  by (simp_all add: log_event_def)

lemma call_proj [simp]:
  "fst (call ev r w) = fst r"
  "trace (snd (call ev r w)) = trace w @ [ev]"
  "mounts (snd (call ev r w)) = mounts w"
  "bridges (snd (call ev r w)) = bridges w"
  "clock (snd (call ev r w)) = clock w"
  "errno (snd (call ev r w)) = snd r"
  by (simp_all add: call_def)

lemma fs_prepare_dir_proj [simp]:
  "fst (fs_prepare_dir E p m u g w) = fst (ext_fs_prepare_dir E w p)"
  "trace (snd (fs_prepare_dir E p m u g w)) = trace w @ [FsPrepareDirEv p m u g]"
  "mounts (snd (fs_prepare_dir E p m u g w)) = mounts w"
  "bridges (snd (fs_prepare_dir E p m u g w)) = bridges w"
  "clock (snd (fs_prepare_dir E p m u g w)) = clock w"
  "errno (snd (fs_prepare_dir E p m u g w)) = snd (ext_fs_prepare_dir E w p)"
  by (simp_all add: fs_prepare_dir_def)

lemma access_proj [simp]:
  "fst (access E p w) = fst (ext_access E w p)"
  "trace (snd (access E p w)) = trace w @ [AccessEv p]"
  "mounts (snd (access E p w)) = mounts w"
  "bridges (snd (access E p w)) = bridges w"
  "clock (snd (access E p w)) = clock w"
  by (simp_all add: access_def)

lemma BindMount_proj [simp]:
  "fst (BindMount E s t w) = fst (ext_BindMount E w s t)"
  "trace (snd (BindMount E s t w)) = trace w @ [BindMountEv s t]"
  "mounts (snd (BindMount E s t w)) =
     (if fst (ext_BindMount E w s t) = OK then List.insert t (mounts w) else mounts w)"
  "bridges (snd (BindMount E s t w)) = bridges w"
  "clock (snd (BindMount E s t w)) = clock w"
  by (simp_all add: BindMount_def Let_def)

lemma UnmountTree_proj [simp]:
  "fst (UnmountTree E p w) = fst (ext_UnmountTree E w p)"
  "trace (snd (UnmountTree E p w)) = trace w @ [UnmountTreeEv p]"
  "mounts (snd (UnmountTree E p w)) =
     (if fst (ext_UnmountTree E w p) = OK then filter (\<lambda>m. \<not> below p m) (mounts w) else mounts w)"
  "bridges (snd (UnmountTree E p w)) = bridges w"
  "clock (snd (UnmountTree E p w)) = clock w"
  by (simp_all add: UnmountTree_def Let_def)

lemma ForceUnmount_proj [simp]:
  "fst (ForceUnmount E p w) = fst (ext_ForceUnmount E w p)"
  "trace (snd (ForceUnmount E p w)) = trace w @ [ForceUnmountEv p]"
  "mounts (snd (ForceUnmount E p w)) =
     (if fst (ext_ForceUnmount E w p) = OK then removeAll p (mounts w) else mounts w)"
  "bridges (snd (ForceUnmount E p w)) = bridges w"
  "clock (snd (ForceUnmount E p w)) = clock w"
  by (simp_all add: ForceUnmount_def Let_def)

lemma rmdir_proj [simp]:
  "trace (rmdir p w) = trace w @ [RmdirEv p]"
  "mounts (rmdir p w) = mounts w"
  "bridges (rmdir p w) = bridges w"
  "clock (rmdir p w) = clock w"
  "errno (rmdir p w) = errno w"
  by (simp_all add: rmdir_def)

lemma GetDevice_proj [simp]:
  "fst (GetDevice E p w) = ext_GetDevice E w p"
  "trace (snd (GetDevice E p w)) = trace w @ [GetDeviceEv p]"
  "mounts (snd (GetDevice E p w)) = mounts w"
  "bridges (snd (GetDevice E p w)) = bridges w"
  "clock (snd (GetDevice E p w)) = clock w"
  "errno (snd (GetDevice E p w)) = errno w"
  by (simp_all add: GetDevice_def)

lemma KillProcessesUsingPath_proj [simp]:
  "trace (KillProcessesUsingPath p w) = trace w @ [KillProcessesUsingPathEv p]"
  "mounts (KillProcessesUsingPath p w) = mounts w"
  "bridges (KillProcessesUsingPath p w) = bridges w"
  "clock (KillProcessesUsingPath p w) = clock w"
  "errno (KillProcessesUsingPath p w) = errno w"
  by (simp_all add: KillProcessesUsingPath_def)

lemma MountUserFuse_proj [simp]:
  "fst (MountUserFuse E u a l w) = fst (ext_MountUserFuse E w u a l)"
  "trace (snd (MountUserFuse E u a l w)) = trace w @ [MountUserFuseEv u a l]"
  "mounts (snd (MountUserFuse E u a l w)) = mounts w"
  "bridges (snd (MountUserFuse E u a l w)) =
     (if fst (ext_MountUserFuse E w u a l) = 0 then List.insert (u, a, l) (bridges w) else bridges w)"
  "clock (snd (MountUserFuse E u a l w)) = clock w"
  by (simp_all add: MountUserFuse_def Let_def)

lemma UnmountUserFuse_proj [simp]:
  "fst (UnmountUserFuse E u a l w) = fst (ext_UnmountUserFuse E w u a l)"
  "trace (snd (UnmountUserFuse E u a l w)) = trace w @ [UnmountUserFuseEv u a l]"
  "mounts (snd (UnmountUserFuse E u a l w)) = mounts w"
  "bridges (snd (UnmountUserFuse E u a l w)) =
     (if fst (ext_UnmountUserFuse E w u a l) = OK then removeAll (u, a, l) (bridges w) else bridges w)"
  "clock (snd (UnmountUserFuse E u a l w)) = clock w"
  "errno (snd (UnmountUserFuse E u a l w)) = snd (ext_UnmountUserFuse E w u a l)"
  by (simp_all add: UnmountUserFuse_def Let_def)

lemma onVolumeChecking_proj [simp]:
  "fst (onVolumeChecking cb p i w) = cb p i"
  "trace (snd (onVolumeChecking cb p i w)) = trace w @ [OnVolumeCheckingEv p i]"
  "mounts (snd (onVolumeChecking cb p i w)) = mounts w"
  "bridges (snd (onVolumeChecking cb p i w)) = bridges w"
  "clock (snd (onVolumeChecking cb p i w)) = clock w"
  by (simp_all add: onVolumeChecking_def)

lemma fd_reset_proj [simp]:
  "trace (fd_reset w) = trace w @ [FdResetEv]"
  "mounts (fd_reset w) = mounts w"
  "bridges (fd_reset w) = bridges w"
  "clock (fd_reset w) = clock w"
  by (simp_all add: fd_reset_def)

lemma waitpid_proj [simp]:
  "trace (waitpid pid w) = trace w @ [WaitpidEv pid]"
  "mounts (waitpid pid w) = mounts w"
  "bridges (waitpid pid w) = bridges w"
  "clock (waitpid pid w) = clock w"
  by (simp_all add: waitpid_def)

lemma usleep_proj [simp]:
  "trace (usleep E us w) = trace w @ [UsleepEv us]"
  "mounts (usleep E us w) = mounts w"
  "bridges (usleep E us w) = bridges w"
  "clock (usleep E us w) = clock w + int us * 1000 + int (ext_usleep_overrun E w)"
  by (simp_all add: usleep_def)

lemma sdcardfs_mounted_proj [simp]:
  "trace (sdcardfs_mounted l w) = trace w"
  "bridges (sdcardfs_mounted l w) = bridges w"
  "clock (sdcardfs_mounted l w) = clock w"
  "set (mounts (sdcardfs_mounted l w)) =
     {''/mnt/runtime/default/'' @ l, ''/mnt/runtime/read/'' @ l,
      ''/mnt/runtime/write/'' @ l, ''/mnt/runtime/full/'' @ l} \<union> set (mounts w)"
  by (auto simp add: sdcardfs_mounted_def)

lemma emitted_append [simp]: "trace w' = trace w @ es \<Longrightarrow> emitted w w' = es"
  by (simp add: emitted_def)

section \<open>The label\<close>

lemma getLabel_flag_only [simp]: "getLabel (v\<lparr>mFuseMounted := b\<rparr>) = getLabel v"
  by (simp add: getLabel_def)

text \<open>
  C4, as stated, fails on the volume the first constructor builds: its stored label is
  already "emulated", so the literal comes back although the primary flag is not set.
\<close>

theorem getLabel_iff_primary_counterexample:
  "\<not> (getLabel (EmulatedVolume_new ''/data/media'' 0 True) = ''emulated''
        \<longleftrightarrow> kPrimary \<in> mMountFlags (EmulatedVolume_new ''/data/media'' 0 True))"
  by (simp add: getLabel_def EmulatedVolume_new_def)

text \<open>
  C4, amended: \<open>getLabel\<close> returns "emulated" when the primary flag is set and the stored
  label otherwise; so it returns "emulated" exactly when the flag is set or the stored
  label is itself "emulated". The result depends on the stored label and the primary flag
  only: two volumes that agree on both, whatever else they hold, have the same label.
\<close>

theorem getLabel_primary_or_stored:
  "(kPrimary \<in> mMountFlags v \<longrightarrow> getLabel v = ''emulated'')
   \<and> (kPrimary \<notin> mMountFlags v \<longrightarrow> getLabel v = mLabel v)
   \<and> (getLabel v = ''emulated'' \<longleftrightarrow> kPrimary \<in> mMountFlags v \<or> mLabel v = ''emulated'')
   \<and> (mLabel v' = mLabel v \<and> (kPrimary \<in> mMountFlags v' \<longleftrightarrow> kPrimary \<in> mMountFlags v)
        \<longrightarrow> getLabel v' = getLabel v)"
  by (auto simp: getLabel_def)

theorem getLabel_primary_or_stored_witness:
  "kPrimary \<in> mMountFlags vol_owner \<and> getLabel vol_owner = ''emulated''
   \<and> kPrimary \<notin> mMountFlags vol_user5 \<and> getLabel vol_user5 = mLabel vol_user5
   \<and> mLabel vol_owner_mounted = mLabel vol_owner
   \<and> (kPrimary \<in> mMountFlags vol_owner_mounted \<longleftrightarrow> kPrimary \<in> mMountFlags vol_owner)
   \<and> getLabel vol_owner_mounted = getLabel vol_owner"
  using getLabel_primary_or_stored [of vol_owner vol_owner_mounted]
    getLabel_primary_or_stored [of vol_user5 vol_user5]
  by (simp add: vol_owner_def vol_owner_mounted_def vol_user5_def EmulatedVolume_new_def)

section \<open>Properties of unmounting\<close>

lemma unmountFuseBindMounts_trace:
  "trace (snd (unmountFuseBindMounts E v w)) = trace w @
     (if mUseSdcardFs v
      then [UnmountTreeEv (''/mnt/installer/'' @ format_d (mMountUserId v) @ ''/'' @ getLabel v @ ''/''
                          @ format_d (mMountUserId v) @ ''/Android/obb'')]
      else []) @
     [UnmountTreeEv (''/mnt/user/'' @ format_d (mMountUserId v) @ ''/'' @ getLabel v @ ''/''
                          @ format_d (mMountUserId v) @ ''/Android'')]"
  by (simp add: unmountFuseBindMounts_def Let_def)

lemma unmountFuseBindMounts_bridges [simp]:
  "bridges (snd (unmountFuseBindMounts E v w)) = bridges w"
  by (simp add: unmountFuseBindMounts_def Let_def)

lemma doUnmount_trace:
  "trace (snd (snd (doUnmount E v w))) = trace w @
     [KillProcessesUsingPathEv (if mFuseMounted v then mPath v @ ''/'' @ format_d (mMountUserId v) else mPath v)] @
     (if mFuseMounted v then
        (if mUseSdcardFs v
         then [UnmountTreeEv (''/mnt/installer/'' @ format_d (mMountUserId v) @ ''/'' @ getLabel v @ ''/''
                          @ format_d (mMountUserId v) @ ''/Android/obb'')]
         else []) @
        [UnmountTreeEv (''/mnt/user/'' @ format_d (mMountUserId v) @ ''/'' @ getLabel v @ ''/''
                          @ format_d (mMountUserId v) @ ''/Android''),
         UnmountUserFuseEv (mMountUserId v) (mInternalPath v) (getLabel v)]
      else []) @
     (if bridge_stop_failed E v w \<or> mMountUserId v \<noteq> 0 \<or> \<not> mUseSdcardFs v then []
      else [ForceUnmountEv (mSdcardFsDefault v), ForceUnmountEv (mSdcardFsRead v),
            ForceUnmountEv (mSdcardFsWrite v), ForceUnmountEv (mSdcardFsFull v),
            RmdirEv (mSdcardFsDefault v), RmdirEv (mSdcardFsRead v),
            RmdirEv (mSdcardFsWrite v), RmdirEv (mSdcardFsFull v)])"
  by (simp add: doUnmount_def bridge_stop_failed_def Let_def unmountFuseBindMounts_trace split_beta)

lemma doUnmount_status:
  "fst (doUnmount E v w) =
     (if bridge_stop_failed E v w then - errno (snd (snd (doUnmount E v w))) else OK)"
  by (simp add: doUnmount_def bridge_stop_failed_def Let_def split_beta)

lemma doUnmount_volume:
  "fst (snd (doUnmount E v w)) =
     (if bridge_stop_failed E v w then v
      else if mMountUserId v \<noteq> 0 \<or> \<not> mUseSdcardFs v then v\<lparr>mFuseMounted := False\<rparr>
      else v\<lparr>mFuseMounted := False, mSdcardFsDefault := [], mSdcardFsRead := [],
             mSdcardFsWrite := [], mSdcardFsFull := []\<rparr>)"
  by (simp add: doUnmount_def bridge_stop_failed_def Let_def split_beta)


text \<open>
  C5: among the events one \<open>doUnmount\<close> call emits, the first is the kill, scoped to the
  user's subpath when the bridge is mounted and to the volume path otherwise, so it comes
  before every unmounting call; with the bridge mounted on an sdcardfs device the
  installer bind mount is taken down before the primary one; and with the bridge mounted
  the bridge stop comes before every forced unmount and every directory removal of an
  sdcardfs view.
\<close>

theorem doUnmount_order:
  "(let es = emitted w (snd (snd (doUnmount E v w)));
        kill = KillProcessesUsingPathEv
                 (if mFuseMounted v then mPath v @ ''/'' @ format_d (mMountUserId v) else mPath v);
        installer = UnmountTreeEv (''/mnt/installer/'' @ format_d (mMountUserId v) @ ''/''
                      @ getLabel v @ ''/'' @ format_d (mMountUserId v) @ ''/Android/obb'');
        primary = UnmountTreeEv (''/mnt/user/'' @ format_d (mMountUserId v) @ ''/''
                      @ getLabel v @ ''/'' @ format_d (mMountUserId v) @ ''/Android'');
        stop = UnmountUserFuseEv (mMountUserId v) (mInternalPath v) (getLabel v)
    in es \<noteq> [] \<and> hd es = kill
       \<and> (\<forall>e. is_unmount_call e \<longrightarrow> precedes kill e es)
       \<and> (mFuseMounted v \<and> mUseSdcardFs v \<longrightarrow>
            installer \<in> set es \<and> primary \<in> set es \<and> precedes installer primary es)
       \<and> (mFuseMounted v \<longrightarrow>
            stop \<in> set es \<and> (\<forall>p. precedes stop (ForceUnmountEv p) es \<and> precedes stop (RmdirEv p) es)))"
proof -
  have kill_not_unmount: "\<And>e p. is_unmount_call e \<Longrightarrow> KillProcessesUsingPathEv p \<noteq> e"
    by auto
  show ?thesis
    unfolding Let_def
    by (simp add: doUnmount_trace kill_not_unmount)
qed

theorem doUnmount_order_witness:
  "mFuseMounted vol_owner_mounted \<and> mUseSdcardFs vol_owner_mounted
   \<and> is_unmount_call (ForceUnmountEv ''/mnt/runtime/full/emulated'')
   \<and> (let es = emitted world_owner_mounted
                  (snd (snd (doUnmount env_ok vol_owner_mounted world_owner_mounted)))
      in hd es = KillProcessesUsingPathEv ''/storage/emulated/0''
         \<and> precedes (KillProcessesUsingPathEv ''/storage/emulated/0'')
              (ForceUnmountEv ''/mnt/runtime/full/emulated'') es
         \<and> UnmountTreeEv ''/mnt/installer/0/emulated/0/Android/obb'' \<in> set es
         \<and> UnmountTreeEv ''/mnt/user/0/emulated/0/Android'' \<in> set es
         \<and> precedes (UnmountTreeEv ''/mnt/installer/0/emulated/0/Android/obb'')
              (UnmountTreeEv ''/mnt/user/0/emulated/0/Android'') es
         \<and> UnmountUserFuseEv 0 ''/data/media'' ''emulated'' \<in> set es
         \<and> precedes (UnmountUserFuseEv 0 ''/data/media'' ''emulated'')
              (ForceUnmountEv ''/mnt/runtime/full/emulated'') es)"
  using doUnmount_order [of world_owner_mounted env_ok vol_owner_mounted]
  by (simp add: Let_def vol_owner_mounted_def vol_owner_def EmulatedVolume_new_def getLabel_def)




lemma bridge_stop_failed_mounted: "bridge_stop_failed E v w \<Longrightarrow> mFuseMounted v"
  by (simp add: bridge_stop_failed_def)


lemma doUnmount_unmounted_mounts:
  assumes u: "unmounted v" and e: "[] \<notin> set (mounts w)"
  shows "mounts (snd (snd (doUnmount E v w))) = mounts w"
  using u e by (auto simp: doUnmount_def unmounted_def Let_def split_beta)

lemma doUnmount_unmounted_bridges:
  assumes u: "unmounted v"
  shows "bridges (snd (snd (doUnmount E v w))) = bridges w"
  using u by (auto simp: doUnmount_def unmounted_def Let_def split_beta)



text \<open>
  C9: an instance fresh from the constructor, with whatever flags, user and callback set
  on it, has nothing mounted, and so has every instance on which \<open>doUnmount\<close> has run to
  the point of clearing the bridge flag. On such an instance \<open>doUnmount\<close> returns \<open>OK\<close>,
  leaves the bridge flag false and the instance unmounted, and leaves the mount table and
  the bridges as they were; the only unmounting calls it can make are forced unmounts of
  the empty path, which is not a mount point.
\<close>

theorem doUnmount_when_unmounted:
  "unmounted ((EmulatedVolume_new rawPath userId sdcardfs)
                \<lparr>mMountFlags := flags, mMountUserId := user, mMountCallback := callback\<rparr>)
   \<and> (\<not> mFuseMounted (fst (snd (doUnmount E0 v0 w0)))
        \<longrightarrow> unmounted (fst (snd (doUnmount E0 v0 w0))))
   \<and> (unmounted v \<and> [] \<notin> set (mounts w) \<longrightarrow>
        (case doUnmount E v w of (st, v', w') \<Rightarrow>
           st = OK \<and> \<not> mFuseMounted v' \<and> unmounted v'
           \<and> mounts w' = mounts w \<and> bridges w' = bridges w
           \<and> (\<forall>e\<in>set (emitted w w'). \<not> is_unmount_call e \<or> e = ForceUnmountEv [])))"
proof -
  have a: "unmounted ((EmulatedVolume_new rawPath userId sdcardfs)
                \<lparr>mMountFlags := flags, mMountUserId := user, mMountCallback := callback\<rparr>)"
    by (simp add: unmounted_def EmulatedVolume_new_def)
  have b: "unmounted (fst (snd (doUnmount E0 v0 w0)))"
    if "\<not> mFuseMounted (fst (snd (doUnmount E0 v0 w0)))"
    using that by (cases "bridge_stop_failed E0 v0 w0")
      (auto simp: doUnmount_volume unmounted_def dest: bridge_stop_failed_mounted)
  have c: "(case doUnmount E v w of (st, v', w') \<Rightarrow>
           st = OK \<and> \<not> mFuseMounted v' \<and> unmounted v'
           \<and> mounts w' = mounts w \<and> bridges w' = bridges w
           \<and> (\<forall>e\<in>set (emitted w w'). \<not> is_unmount_call e \<or> e = ForceUnmountEv []))"
    if u: "unmounted v" and e: "[] \<notin> set (mounts w)"
  proof -
    have nf: "\<not> bridge_stop_failed E v w"
      using u by (simp add: bridge_stop_failed_def unmounted_def)
    have 1: "fst (doUnmount E v w) = OK"
      using nf by (simp add: doUnmount_status)
    have 2: "unmounted (fst (snd (doUnmount E v w)))"
      using nf u by (simp add: doUnmount_volume unmounted_def)
    have 3: "\<forall>e\<in>set (emitted w (snd (snd (doUnmount E v w)))). \<not> is_unmount_call e \<or> e = ForceUnmountEv []"
      using nf u by (auto simp: doUnmount_trace unmounted_def)
    show ?thesis
      using 1 2 3 doUnmount_unmounted_mounts [OF u e] doUnmount_unmounted_bridges [OF u]
      by (simp add: split_beta unmounted_def)
  qed
  from c have c': "unmounted v \<and> [] \<notin> set (mounts w) \<longrightarrow>
        (case doUnmount E v w of (st, v', w') \<Rightarrow>
           st = OK \<and> \<not> mFuseMounted v' \<and> unmounted v'
           \<and> mounts w' = mounts w \<and> bridges w' = bridges w
           \<and> (\<forall>e\<in>set (emitted w w'). \<not> is_unmount_call e \<or> e = ForceUnmountEv []))"
    by (intro impI) (elim conjE)
  from b have b': "\<not> mFuseMounted (fst (snd (doUnmount E0 v0 w0)))
        \<longrightarrow> unmounted (fst (snd (doUnmount E0 v0 w0)))"
    by (intro impI)
  from a b' c' show ?thesis
    by (intro conjI)
qed

theorem doUnmount_when_unmounted_witness:
  "unmounted (EmulatedVolume_new ''/data/media'' 0 True\<lparr>mMountFlags := {kPrimary, kVisible}, mMountUserId := 0, mMountCallback := None\<rparr>)
   \<and> [] \<notin> set (mounts world_owner_mounted)
   \<and> (case doUnmount env_ok (EmulatedVolume_new ''/data/media'' 0 True\<lparr>mMountFlags := {kPrimary, kVisible}, mMountUserId := 0, mMountCallback := None\<rparr>) world_owner_mounted of
        (st, v', w') \<Rightarrow> st = OK \<and> \<not> mFuseMounted v'
           \<and> mounts w' = mounts world_owner_mounted \<and> bridges w' = bridges world_owner_mounted)
   \<and> \<not> mFuseMounted (fst (snd (doUnmount env_ok vol_owner_mounted world_owner_mounted)))
   \<and> unmounted (fst (snd (doUnmount env_ok vol_owner_mounted world_owner_mounted)))"
proof -
  have e: "[] \<notin> set (mounts world_owner_mounted)"
    by (simp add: world_owner_mounted_def)
  have nf: "\<not> bridge_stop_failed env_ok vol_owner_mounted world_owner_mounted"
    by (simp add: bridge_stop_failed_def env_ok_def)
  have f: "\<not> mFuseMounted (fst (snd (doUnmount env_ok vol_owner_mounted world_owner_mounted)))"
    using nf by (simp add: doUnmount_volume)
  show ?thesis
    using doUnmount_when_unmounted [where rawPath = "''/data/media''" and userId = 0
        and sdcardfs = True and flags = "{kPrimary, kVisible}" and user = 0 and callback = None
        and ?E0.0 = env_ok and ?v0.0 = vol_owner_mounted and ?w0.0 = world_owner_mounted
        and v = "EmulatedVolume_new ''/data/media'' 0 True\<lparr>mMountFlags := {kPrimary, kVisible}, mMountUserId := 0, mMountCallback := None\<rparr>"
        and w = world_owner_mounted and E = env_ok] e f
    by (simp add: split_beta)
qed

text \<open>
  C10: with the bridge mounted, when \<open>unmountFuseBindMounts\<close> returns an error inside
  \<open>doUnmount\<close>, the bridge stop is called all the same, and unless the bridge stop itself
  fails \<open>doUnmount\<close> returns \<open>OK\<close> with the bridge flag cleared.
\<close>

theorem doUnmount_discards_bind_teardown_status:
  "mFuseMounted v \<and>
   fst (unmountFuseBindMounts E v
          (KillProcessesUsingPath (mPath v @ ''/'' @ format_d (mMountUserId v)) w)) \<noteq> OK \<longrightarrow>
   (case doUnmount E v w of (st, v', w') \<Rightarrow>
      UnmountUserFuseEv (mMountUserId v) (mInternalPath v) (getLabel v) \<in> set (emitted w w')
      \<and> (\<not> bridge_stop_failed E v w \<longrightarrow> st = OK \<and> \<not> mFuseMounted v'))"
  by (simp add: split_beta doUnmount_trace doUnmount_status doUnmount_volume)

theorem doUnmount_discards_bind_teardown_status_witness:
  "mFuseMounted vol_user5_mounted
   \<and> fst (unmountFuseBindMounts env_busy vol_user5_mounted
          (KillProcessesUsingPath ''/storage/emulated/5'' world_user5_mounted)) = - 16
   \<and> \<not> bridge_stop_failed env_busy vol_user5_mounted world_user5_mounted
   \<and> (case doUnmount env_busy vol_user5_mounted world_user5_mounted of (st, v', w') \<Rightarrow>
        UnmountUserFuseEv 5 ''/data/media'' ''emulated'' \<in> set (emitted world_user5_mounted w')
        \<and> st = OK \<and> \<not> mFuseMounted v'
        \<and> ''/mnt/user/5/emulated/5/Android'' \<in> set (mounts w'))"
proof -
  have fm: "mFuseMounted vol_user5_mounted"
    by (simp add: vol_user5_mounted_def)
  have p: "mPath vol_user5_mounted @ ''/'' @ format_d (mMountUserId vol_user5_mounted) = ''/storage/emulated/5''"
    by (simp add: vol_user5_mounted_def vol_user5_def)
  have s: "fst (unmountFuseBindMounts env_busy vol_user5_mounted
          (KillProcessesUsingPath ''/storage/emulated/5'' world_user5_mounted)) = - 16"
    by (simp add: unmountFuseBindMounts_def Let_def env_busy_def env_ok_def)
  have nf: "\<not> bridge_stop_failed env_busy vol_user5_mounted world_user5_mounted"
    by (simp add: bridge_stop_failed_def env_busy_def env_ok_def)
  have m: "''/mnt/user/5/emulated/5/Android'' \<in> set (mounts (snd (snd (doUnmount env_busy vol_user5_mounted world_user5_mounted))))"
    by (simp add: doUnmount_def Let_def split_beta unmountFuseBindMounts_def vol_user5_mounted_def
        vol_user5_def EmulatedVolume_new_def env_busy_def env_ok_def world_user5_mounted_def world0_def)
  show ?thesis
    using doUnmount_discards_bind_teardown_status [of vol_user5_mounted env_busy world_user5_mounted]
      fm s nf m
    by (simp add: split_beta p vol_user5_mounted_def vol_user5_def EmulatedVolume_new_def getLabel_def)
qed


section \<open>The first part of mounting\<close>

lemma emits_iff: "emits P w w' \<longleftrightarrow> (\<exists>es. trace w' = trace w @ es \<and> (\<forall>e\<in>set es. P e))"
proof
  assume "emits P w w'"
  then have "trace w' = trace w @ emitted w w'" and "\<forall>e\<in>set (emitted w w'). P e"
    by (simp_all add: emits_def emitted_def list_all_iff)
      (metis append_take_drop_id)
  then show "\<exists>es. trace w' = trace w @ es \<and> (\<forall>e\<in>set es. P e)"
    by blast
next
  assume "\<exists>es. trace w' = trace w @ es \<and> (\<forall>e\<in>set es. P e)"
  then show "emits P w w'"
    by (auto simp: emits_def list_all_iff)
qed

lemma emits_refl [simp]: "emits P w w"
  by (simp add: emits_iff)

lemma emits_trans: "emits P w w1 \<Longrightarrow> emits P w1 w2 \<Longrightarrow> emits P w w2"
  by (auto simp: emits_iff)

lemma emits_mono: "emits P w w' \<Longrightarrow> (\<And>e. P e \<Longrightarrow> Q e) \<Longrightarrow> emits Q w w'"
  by (auto simp: emits_iff)

lemma emits_ext: "emits P w w1 \<Longrightarrow> trace w2 = trace w1 @ es \<Longrightarrow> \<forall>e\<in>set es. P e \<Longrightarrow> emits P w w2"
  by (auto simp: emits_iff)

lemma emits_emitted: "emits P w w' \<Longrightarrow> e \<in> set (emitted w w') \<Longrightarrow> P e"
  by (auto simp: emits_iff)


lemma emitted_trans:
  "emits P w w1 \<Longrightarrow> emits Q w1 w2 \<Longrightarrow> emitted w w2 = emitted w w1 @ emitted w1 w2"
  by (auto simp: emits_iff)

text \<open>wait loop\<close>

lemma wait_for_sdcardfs_changed:
  "ext_GetDevice E w full \<noteq> d \<Longrightarrow>
   wait_for_sdcardfs E d full start w = (None, snd (GetDevice E full w))"
  by (subst wait_for_sdcardfs.simps) (auto simp: split_beta)

lemma wait_for_sdcardfs_timeout:
  "ext_GetDevice E w full = d \<Longrightarrow>
   5000 < nanoseconds_to_milliseconds (clock (usleep E 50000 (snd (GetDevice E full w))) - start) \<Longrightarrow>
   wait_for_sdcardfs E d full start w = (Some (- ETIMEDOUT), usleep E 50000 (snd (GetDevice E full w)))"
  by (subst wait_for_sdcardfs.simps) (simp add: split_beta Let_def systemTime_def)

lemma wait_for_sdcardfs_again:
  "ext_GetDevice E w full = d \<Longrightarrow>
   \<not> 5000 < nanoseconds_to_milliseconds (clock (usleep E 50000 (snd (GetDevice E full w))) - start) \<Longrightarrow>
   wait_for_sdcardfs E d full start w =
     wait_for_sdcardfs E d full start (usleep E 50000 (snd (GetDevice E full w)))"
  by (subst wait_for_sdcardfs.simps) (simp add: split_beta Let_def systemTime_def)

lemma wait_for_sdcardfs_induct:
  assumes changed: "\<And>w. ext_GetDevice E w full \<noteq> d \<Longrightarrow> P w (None, snd (GetDevice E full w))"
    and timeout: "\<And>w. ext_GetDevice E w full = d \<Longrightarrow>
        5000 < nanoseconds_to_milliseconds (clock (usleep E 50000 (snd (GetDevice E full w))) - start) \<Longrightarrow>
        P w (Some (- ETIMEDOUT), usleep E 50000 (snd (GetDevice E full w)))"
    and again: "\<And>w r. ext_GetDevice E w full = d \<Longrightarrow>
        \<not> 5000 < nanoseconds_to_milliseconds (clock (usleep E 50000 (snd (GetDevice E full w))) - start) \<Longrightarrow>
        P (usleep E 50000 (snd (GetDevice E full w))) r \<Longrightarrow> P w r"
  shows "P w (wait_for_sdcardfs E d full start w)"
  using assms
proof (induction E d full start w rule: wait_for_sdcardfs.induct)
  case (1 E d full start w)
  let ?w2 = "usleep E 50000 (snd (GetDevice E full w))"
  show ?case
  proof (cases "ext_GetDevice E w full = d")
    case False
    then show ?thesis
      using "1.prems"(1) by (simp add: wait_for_sdcardfs_changed)
  next
    case True
    show ?thesis
    proof (cases "5000 < nanoseconds_to_milliseconds (clock ?w2 - start)")
      case t: True
      then show ?thesis
        using True "1.prems"(2) by (simp add: wait_for_sdcardfs_timeout)
    next
      case f: False
      have "P ?w2 (wait_for_sdcardfs E d full start ?w2)"
        using True f "1.prems"
        by (intro "1.IH" [of "ext_GetDevice E w full" "snd (GetDevice E full w)" ?w2 "systemTime ?w2"])
          (simp_all add: prod_eq_iff systemTime_def)
      then show ?thesis
        using True f "1.prems"(3) by (simp add: wait_for_sdcardfs_again)
    qed
  qed
qed

lemma wait_for_sdcardfs_emits:
  "emits (\<lambda>e. e = GetDeviceEv full \<or> e = UsleepEv 50000) w
     (snd (wait_for_sdcardfs E d full start w))"
proof (rule wait_for_sdcardfs_induct
    [where P = "\<lambda>w r. emits (\<lambda>e. e = GetDeviceEv full \<or> e = UsleepEv 50000) w (snd r)"])
  fix w
  show "emits (\<lambda>e. e = GetDeviceEv full \<or> e = UsleepEv 50000) w
          (snd (None :: status_t option, snd (GetDevice E full w)))"
    by (rule emits_ext [OF emits_refl, where es = "[GetDeviceEv full]"]) simp_all
  have step: "emits (\<lambda>e. e = GetDeviceEv full \<or> e = UsleepEv 50000) w
          (usleep E 50000 (snd (GetDevice E full w)))"
    by (rule emits_ext [OF emits_refl, where es = "[GetDeviceEv full, UsleepEv 50000]"]) simp_all
  then show "emits (\<lambda>e. e = GetDeviceEv full \<or> e = UsleepEv 50000) w
          (snd (Some (- ETIMEDOUT), usleep E 50000 (snd (GetDevice E full w))))"
    by simp
  fix r :: "status_t option \<times> world"
  assume "emits (\<lambda>e. e = GetDeviceEv full \<or> e = UsleepEv 50000)
            (usleep E 50000 (snd (GetDevice E full w))) (snd r)"
  with step show "emits (\<lambda>e. e = GetDeviceEv full \<or> e = UsleepEv 50000) w (snd r)"
    by (rule emits_trans)
qed

lemma wait_for_sdcardfs_keeps:
  "mounts (snd (wait_for_sdcardfs E d full start w)) = mounts w
   \<and> bridges (snd (wait_for_sdcardfs E d full start w)) = bridges w
   \<and> clock w \<le> clock (snd (wait_for_sdcardfs E d full start w))"
  by (rule wait_for_sdcardfs_induct
      [where P = "\<lambda>w r. mounts (snd r) = mounts w \<and> bridges (snd r) = bridges w \<and> clock w \<le> clock (snd r)"])
    auto

lemma wait_for_sdcardfs_result:
  "fst (wait_for_sdcardfs E d full start w) = None
   \<or> fst (wait_for_sdcardfs E d full start w) = Some (- ETIMEDOUT)
      \<and> 5000 < nanoseconds_to_milliseconds (clock (snd (wait_for_sdcardfs E d full start w)) - start)"
  by (rule wait_for_sdcardfs_induct
      [where P = "\<lambda>w r. fst r = None \<or> fst r = Some (- ETIMEDOUT)
          \<and> 5000 < nanoseconds_to_milliseconds (clock (snd r) - start)"])
    auto

lemma wait_for_sdcardfs_stuck:
  assumes "\<forall>w'. ext_GetDevice E w' full = d"
  shows "fst (wait_for_sdcardfs E d full start w) = Some (- ETIMEDOUT)"
  by (rule wait_for_sdcardfs_induct [where P = "\<lambda>w r. fst r = Some (- ETIMEDOUT)"])
    (use assms in auto)





lemma prepare_mount_points_emits:
  "emits (spin_up_event raw label) w (snd (prepare_mount_points E v w))"
  by (simp add: prepare_mount_points_def split_beta emits_def emitted_def)

lemma prepare_mount_points_keeps [simp]:
  "mounts (snd (prepare_mount_points E v w)) = mounts w"
  "bridges (snd (prepare_mount_points E v w)) = bridges w"
  "clock (snd (prepare_mount_points E v w)) = clock w"
  by (simp_all add: prepare_mount_points_def split_beta)

lemma spawn_sdcardfs_emits:
  assumes "mSdcardFsFull v = ''/mnt/runtime/full/'' @ label"
  shows "emits (spin_up_event (mRawPath v) label) w (snd (spawn_sdcardfs E v label d w))"
proof (cases "ext_fork E w")
  case (ForkFailed e)
  then show ?thesis
    by (simp add: spawn_sdcardfs_def emits_def emitted_def)
next
  case (ForkChild pid)
  let ?w1 = "log_event (ExeclEv kSdcardFsPath (sdcardfs_argv (mRawPath v) label)) (log_event ForkEv w)"
  let ?r = "wait_for_sdcardfs E d (mSdcardFsFull v) (systemTime ?w1) ?w1"
  have a: "emits (spin_up_event (mRawPath v) label) w ?w1"
    by (simp add: emits_def emitted_def)
  have "emits (\<lambda>e. e = GetDeviceEv (mSdcardFsFull v) \<or> e = UsleepEv 50000) ?w1 (snd ?r)"
    by (rule wait_for_sdcardfs_emits)
  then have "emits (spin_up_event (mRawPath v) label) ?w1 (snd ?r)"
    by (rule emits_mono) (auto simp: assms)
  with a have b: "emits (spin_up_event (mRawPath v) label) w (snd ?r)"
    by (rule emits_trans)
  have c: "emits (spin_up_event (mRawPath v) label) w (waitpid (int pid + 1) (sdcardfs_mounted label (snd ?r)))"
    by (rule emits_ext [OF b, where es = "[WaitpidEv (int pid + 1)]"]) simp_all
  show ?thesis
    using b c ForkChild by (simp add: spawn_sdcardfs_def Let_def split_beta split: option.splits)
qed

lemma spawn_sdcardfs_early:
  assumes "mSdcardFsFull v = ''/mnt/runtime/full/'' @ label"
    and "fst (spawn_sdcardfs E v label d w) = Some err"
  shows "emits (\<lambda>e. spin_up_event (mRawPath v) label e \<and> (\<forall>pid. e \<noteq> WaitpidEv pid)) w
           (snd (spawn_sdcardfs E v label d w))
         \<and> mounts (snd (spawn_sdcardfs E v label d w)) = mounts w"
proof (cases "ext_fork E w")
  case (ForkFailed e)
  then show ?thesis
    by (simp add: spawn_sdcardfs_def emits_def emitted_def)
next
  case (ForkChild pid)
  let ?P = "\<lambda>e. spin_up_event (mRawPath v) label e \<and> (\<forall>pid. e \<noteq> WaitpidEv pid)"
  let ?w1 = "log_event (ExeclEv kSdcardFsPath (sdcardfs_argv (mRawPath v) label)) (log_event ForkEv w)"
  let ?r = "wait_for_sdcardfs E d (mSdcardFsFull v) (systemTime ?w1) ?w1"
  have a: "emits ?P w ?w1"
    by (simp add: emits_def emitted_def)
  have "emits (\<lambda>e. e = GetDeviceEv (mSdcardFsFull v) \<or> e = UsleepEv 50000) ?w1 (snd ?r)"
    by (rule wait_for_sdcardfs_emits)
  then have "emits ?P ?w1 (snd ?r)"
    by (rule emits_mono) (auto simp: assms)
  with a have b: "emits ?P w (snd ?r)"
    by (rule emits_trans)
  have m: "mounts (snd ?r) = mounts w"
    by (simp add: wait_for_sdcardfs_keeps)
  show ?thesis
    using b m ForkChild assms(2)
    by (simp add: spawn_sdcardfs_def Let_def split_beta split: option.splits)
qed

lemma spawn_sdcardfs_keeps:
  "bridges (snd (spawn_sdcardfs E v label d w)) = bridges w
   \<and> set (mounts w) \<subseteq> set (mounts (snd (spawn_sdcardfs E v label d w)))
   \<and> clock w \<le> clock (snd (spawn_sdcardfs E v label d w))"
proof (cases "ext_fork E w")
  case (ForkFailed e)
  then show ?thesis
    by (simp add: spawn_sdcardfs_def)
next
  case (ForkChild pid)
  let ?w1 = "log_event (ExeclEv kSdcardFsPath (sdcardfs_argv (mRawPath v) label)) (log_event ForkEv w)"
  let ?r = "wait_for_sdcardfs E d (mSdcardFsFull v) (systemTime ?w1) ?w1"
  have "mounts (snd ?r) = mounts ?w1 \<and> bridges (snd ?r) = bridges ?w1 \<and> clock ?w1 \<le> clock (snd ?r)"
    by (rule wait_for_sdcardfs_keeps)
  then show ?thesis
    using ForkChild
    by (auto simp: spawn_sdcardfs_def Let_def split_beta split: option.splits)
qed

lemma stored_paths_fields [simp]:
  "mSdcardFsDefault (stored_paths v) = ''/mnt/runtime/default/'' @ getLabel v"
  "mSdcardFsRead (stored_paths v) = ''/mnt/runtime/read/'' @ getLabel v"
  "mSdcardFsWrite (stored_paths v) = ''/mnt/runtime/write/'' @ getLabel v"
  "mSdcardFsFull (stored_paths v) = ''/mnt/runtime/full/'' @ getLabel v"
  "mInternalPath (stored_paths v) = mRawPath v"
  "mPath (stored_paths v) = ''/storage/'' @ getLabel v"
  "mRawPath (stored_paths v) = mRawPath v"
  "mMountUserId (stored_paths v) = mMountUserId v"
  "mUseSdcardFs (stored_paths v) = mUseSdcardFs v"
  "mMountFlags (stored_paths v) = mMountFlags v"
  "mMountCallback (stored_paths v) = mMountCallback v"
  "mFuseMounted (stored_paths v) = mFuseMounted v"
  "mLabel (stored_paths v) = mLabel v"
  "getLabel (stored_paths v) = getLabel v"
  by (simp_all add: stored_paths_def getLabel_def)

lemma doMount_unfold:
  "doMount E v w =
     (case mount_spin_up E v w of
        (Some err, w3) \<Rightarrow> (err, stored_paths v, w3)
      | (None, w3) \<Rightarrow>
          if prop_fuse E \<and> kVisible \<in> mMountFlags v
          then mount_fuse E (stored_paths v) (getLabel v) w3
          else (OK, stored_paths v, w3))"
  by (auto simp add: doMount_def mount_spin_up_def stored_paths_def Let_def split_beta
      split: option.splits)

lemma mount_spin_up_emits:
  "emits (spin_up_event (mRawPath v) (getLabel v)) w (snd (mount_spin_up E v w))"
proof -
  let ?P = "spin_up_event (mRawPath v) (getLabel v)"
  let ?p = "prepare_mount_points E (stored_paths v) w"
  let ?g = "GetDevice E (''/mnt/runtime/full/'' @ getLabel v) (snd ?p)"
  let ?s = "spawn_sdcardfs E (stored_paths v) (getLabel v) (fst ?g) (snd ?g)"
  have ep: "emits ?P w (snd ?p)"
    by (rule prepare_mount_points_emits)
  have eg: "emits ?P w (snd ?g)"
    by (rule emits_ext [OF ep, where es = "[GetDeviceEv (''/mnt/runtime/full/'' @ getLabel v)]"])
      simp_all
  have "emits ?P (snd ?g) (snd ?s)"
    using spawn_sdcardfs_emits [where v = "stored_paths v" and label = "getLabel v" and E = E
        and d = "fst ?g" and w = "snd ?g"]
    by simp
  with eg have "emits ?P w (snd ?s)"
    by (rule emits_trans)
  with ep eg show ?thesis
    by (simp add: mount_spin_up_def split_beta)
qed

lemma mount_spin_up_keeps:
  "bridges (snd (mount_spin_up E v w)) = bridges w
   \<and> set (mounts w) \<subseteq> set (mounts (snd (mount_spin_up E v w)))
   \<and> clock w \<le> clock (snd (mount_spin_up E v w))"
  using spawn_sdcardfs_keeps [where E = E and v = "stored_paths v" and label = "getLabel v"
      and d = "ext_GetDevice E (snd (prepare_mount_points E (stored_paths v) w))
                 (''/mnt/runtime/full/'' @ getLabel v)"
      and w = "snd (GetDevice E (''/mnt/runtime/full/'' @ getLabel v)
                 (snd (prepare_mount_points E (stored_paths v) w)))"]
  by (simp add: mount_spin_up_def split_beta)

lemma mount_spin_up_early:
  assumes "fst (mount_spin_up E v w) = Some err"
  shows "emits (\<lambda>e. spin_up_event (mRawPath v) (getLabel v) e \<and> (\<forall>pid. e \<noteq> WaitpidEv pid)) w
           (snd (mount_spin_up E v w))
         \<and> mounts (snd (mount_spin_up E v w)) = mounts w"
proof -
  let ?P = "\<lambda>e. spin_up_event (mRawPath v) (getLabel v) e \<and> (\<forall>pid. e \<noteq> WaitpidEv pid)"
  let ?p = "prepare_mount_points E (stored_paths v) w"
  let ?g = "GetDevice E (''/mnt/runtime/full/'' @ getLabel v) (snd ?p)"
  let ?s = "spawn_sdcardfs E (stored_paths v) (getLabel v) (fst ?g) (snd ?g)"
  have ep: "emits ?P w (snd ?p)"
    by (simp add: prepare_mount_points_def split_beta emits_def emitted_def)
  have eg: "emits ?P w (snd ?g)"
    by (rule emits_ext [OF ep, where es = "[GetDeviceEv (''/mnt/runtime/full/'' @ getLabel v)]"])
      simp_all
  show ?thesis
  proof (cases "fst ?p")
    case True
    then show ?thesis
      using ep by (simp add: mount_spin_up_def split_beta)
  next
    case False
    then have sp: "mUseSdcardFs v \<and> mMountUserId v = 0" and s: "fst ?s = Some err"
      using assms by (auto simp: mount_spin_up_def split_beta split: if_splits)
    have "emits ?P (snd ?g) (snd ?s) \<and> mounts (snd ?s) = mounts (snd ?g)"
      using spawn_sdcardfs_early [where v = "stored_paths v" and label = "getLabel v" and E = E
        and d = "fst ?g" and w = "snd ?g" and err = err] s
      by simp
    then have "emits ?P w (snd ?s)" and "mounts (snd ?s) = mounts w"
      using eg emits_trans by auto
    then show ?thesis
      using False sp by (simp add: mount_spin_up_def split_beta)
  qed
qed

section \<open>Properties of the bind mounts\<close>

lemma doFuseBindMount_emits:
  "emits (\<lambda>e. e = AccessEv s \<or> e = FsPrepareDirEv s 505 AID_MEDIA_RW AID_MEDIA_RW \<or> e = BindMountEv s t)
     w (snd (doFuseBindMount E s t w))"
  by (simp add: doFuseBindMount_def split_beta emits_def emitted_def)

lemma doFuseBindMount_first:
  "emitted w (snd (doFuseBindMount E s t w)) \<noteq> []
   \<and> hd (emitted w (snd (doFuseBindMount E s t w))) = AccessEv s"
  by (simp add: doFuseBindMount_def split_beta emitted_def)

lemma doFuseBindMount_ok:
  "fst (ext_access E w s) = 0 \<or> fst (ext_fs_prepare_dir E (snd (access E s w)) s) = 0 \<Longrightarrow>
   BindMountEv s t \<in> set (emitted w (snd (doFuseBindMount E s t w)))"
  by (auto simp add: doFuseBindMount_def split_beta emitted_def)

lemma doFuseBindMount_bridges [simp]:
  "bridges (snd (doFuseBindMount E s t w)) = bridges w"
  by (simp add: doFuseBindMount_def split_beta)

lemma mountFuseBindMounts_unfold:
  "mountFuseBindMounts E v w =
     (let s1 = doFuseBindMount E
                 (if mUseSdcardFs v
                  then ''/mnt/runtime/default/'' @ getLabel v @ ''/'' @ format_d (mMountUserId v) @ ''/Android''
                  else ''/'' @ mRawPath v @ ''/'' @ format_d (mMountUserId v) @ ''/Android'')
                 (''/mnt/user/'' @ format_d (mMountUserId v) @ ''/'' @ getLabel v @ ''/''
                    @ format_d (mMountUserId v) @ ''/Android'') w
      in if fst s1 \<noteq> OK \<or> \<not> mUseSdcardFs v then s1
         else (fst (doFuseBindMount E
                 (''/mnt/runtime/write/'' @ getLabel v @ ''/'' @ format_d (mMountUserId v) @ ''/Android/obb'')
                 (''/mnt/installer/'' @ format_d (mMountUserId v) @ ''/'' @ getLabel v @ ''/''
                    @ format_d (mMountUserId v) @ ''/Android/obb'') (snd s1)),
               snd (doFuseBindMount E
                 (''/mnt/runtime/write/'' @ getLabel v @ ''/'' @ format_d (mMountUserId v) @ ''/Android/obb'')
                 (''/mnt/installer/'' @ format_d (mMountUserId v) @ ''/'' @ getLabel v @ ''/''
                    @ format_d (mMountUserId v) @ ''/Android/obb'') (snd s1))))"
  by (auto simp: mountFuseBindMounts_def Let_def prod_eq_iff)

lemma mountFuseBindMounts_events:
  fixes v :: EmulatedVolume and E :: env and w :: world
  defines "source \<equiv> (if mUseSdcardFs v
                  then ''/mnt/runtime/default/'' @ getLabel v @ ''/'' @ format_d (mMountUserId v) @ ''/Android''
                  else ''/'' @ mRawPath v @ ''/'' @ format_d (mMountUserId v) @ ''/Android'')"
    and "target \<equiv> ''/mnt/user/'' @ format_d (mMountUserId v) @ ''/'' @ getLabel v @ ''/''
                    @ format_d (mMountUserId v) @ ''/Android''"
    and "isource \<equiv> ''/mnt/runtime/write/'' @ getLabel v @ ''/'' @ format_d (mMountUserId v) @ ''/Android/obb''"
    and "itarget \<equiv> ''/mnt/installer/'' @ format_d (mMountUserId v) @ ''/'' @ getLabel v @ ''/''
                    @ format_d (mMountUserId v) @ ''/Android/obb''"
    and "w' \<equiv> snd (mountFuseBindMounts E v w)"
  shows "emits (\<lambda>e. e = AccessEv source \<or> e = FsPrepareDirEv source 505 AID_MEDIA_RW AID_MEDIA_RW
                   \<or> e = BindMountEv source target
                   \<or> mUseSdcardFs v \<and> (e = AccessEv isource
                        \<or> e = FsPrepareDirEv isource 505 AID_MEDIA_RW AID_MEDIA_RW
                        \<or> e = BindMountEv isource itarget)) w w'"
    and "emitted w w' \<noteq> []" and "hd (emitted w w') = AccessEv source"
    and "fst (ext_access E w source) = 0 \<or> fst (ext_fs_prepare_dir E (snd (access E source w)) source) = 0
         \<Longrightarrow> BindMountEv source target \<in> set (emitted w w')"
    and "bridges w' = bridges w"
proof -
  let ?P = "\<lambda>e. e = AccessEv source \<or> e = FsPrepareDirEv source 505 AID_MEDIA_RW AID_MEDIA_RW
                   \<or> e = BindMountEv source target
                   \<or> mUseSdcardFs v \<and> (e = AccessEv isource
                        \<or> e = FsPrepareDirEv isource 505 AID_MEDIA_RW AID_MEDIA_RW
                        \<or> e = BindMountEv isource itarget)"
  let ?s1 = "doFuseBindMount E source target w"
  let ?s2 = "doFuseBindMount E isource itarget (snd ?s1)"
  have unf: "mountFuseBindMounts E v w =
      (if fst ?s1 \<noteq> OK \<or> \<not> mUseSdcardFs v then ?s1 else (fst ?s2, snd ?s2))"
    unfolding source_def target_def isource_def itarget_def
    by (simp add: mountFuseBindMounts_unfold Let_def)
  have e1: "emits ?P w (snd ?s1)"
    by (rule emits_mono [OF doFuseBindMount_emits]) auto
  have e2: "mUseSdcardFs v \<Longrightarrow> emits ?P (snd ?s1) (snd ?s2)"
    by (rule emits_mono [OF doFuseBindMount_emits]) auto
  have f1: "emitted w (snd ?s1) \<noteq> []" "hd (emitted w (snd ?s1)) = AccessEv source"
    using doFuseBindMount_first [of w E source target] by simp_all
  have o1: "fst (ext_access E w source) = 0 \<or> fst (ext_fs_prepare_dir E (snd (access E source w)) source) = 0
      \<Longrightarrow> BindMountEv source target \<in> set (emitted w (snd ?s1))"
    by (rule doFuseBindMount_ok)
  show "emits ?P w w'" "emitted w w' \<noteq> []" "hd (emitted w w') = AccessEv source"
    "fst (ext_access E w source) = 0 \<or> fst (ext_fs_prepare_dir E (snd (access E source w)) source) = 0
       \<Longrightarrow> BindMountEv source target \<in> set (emitted w w')"
    "bridges w' = bridges w"
  proof -
    show "bridges w' = bridges w"
      by (simp add: w'_def unf)
  next
    show "emits ?P w w'"
      using e1 e2 emits_trans by (auto simp: w'_def unf)
  next
    show "emitted w w' \<noteq> []"
      using f1 e1 e2 emitted_trans [of ?P w "snd ?s1" ?P "snd ?s2"] by (auto simp: w'_def unf)
  next
    show "hd (emitted w w') = AccessEv source"
      using f1 e1 e2 emitted_trans [of ?P w "snd ?s1" ?P "snd ?s2"] by (auto simp: w'_def unf)
  next
    assume "fst (ext_access E w source) = 0 \<or> fst (ext_fs_prepare_dir E (snd (access E source w)) source) = 0"
    then show "BindMountEv source target \<in> set (emitted w w')"
      using o1 e1 e2 emitted_trans [of ?P w "snd ?s1" ?P "snd ?s2"]
      by (auto simp: w'_def unf split: if_splits)
  qed
qed





section \<open>The bridge block of mounting\<close>


lemma doUnmount_emits: "emits bridge_event w (snd (snd (doUnmount E v w)))"
  by (simp add: emits_def emitted_def doUnmount_trace)

lemma mountFuseBindMounts_emits: "emits bridge_event w (snd (mountFuseBindMounts E v w))"
  by (rule emits_mono [OF mountFuseBindMounts_events(1)]) auto

lemma mount_fuse_start_failed:
  "fst (ext_MountUserFuse E w (mMountUserId v) (mInternalPath v) l) \<noteq> 0 \<Longrightarrow>
   mount_fuse E v l w =
     (- fst (ext_MountUserFuse E w (mMountUserId v) (mInternalPath v) l), v,
      snd (MountUserFuse E (mMountUserId v) (mInternalPath v) l w))"
  by (simp add: mount_fuse_def Let_def split_beta)

lemma mount_fuse_not_ready:
  "fst (ext_MountUserFuse E w (mMountUserId v) (mInternalPath v) l) = 0 \<Longrightarrow>
   mMountCallback v = Some cb \<Longrightarrow> \<not> cb (mPath v) (mInternalPath v) \<Longrightarrow>
   mount_fuse E v l w =
     (- EIO,
      snd (doUnmount E (v\<lparr>mFuseMounted := True\<rparr>)
             (fd_reset (snd (onVolumeChecking cb (mPath v) (mInternalPath v)
                (snd (MountUserFuse E (mMountUserId v) (mInternalPath v) l w)))))))"
  by (simp add: mount_fuse_def Let_def split_beta)

lemma mount_fuse_ready:
  "fst (ext_MountUserFuse E w (mMountUserId v) (mInternalPath v) l) = 0 \<Longrightarrow>
   (case mMountCallback v of None \<Rightarrow> True | Some cb \<Rightarrow> cb (mPath v) (mInternalPath v)) \<Longrightarrow>
   mount_fuse E v l w =
     (let w2 = (case mMountCallback v of
                  None \<Rightarrow> snd (MountUserFuse E (mMountUserId v) (mInternalPath v) l w)
                | Some cb \<Rightarrow> snd (onVolumeChecking cb (mPath v) (mInternalPath v)
                               (snd (MountUserFuse E (mMountUserId v) (mInternalPath v) l w))));
          b = mountFuseBindMounts E (v\<lparr>mFuseMounted := True\<rparr>) w2
      in if fst b \<noteq> OK
         then (fst b, snd (doUnmount E (v\<lparr>mFuseMounted := True\<rparr>) (fd_reset (snd b))))
         else (OK, v\<lparr>mFuseMounted := True\<rparr>, snd b))"
  by (auto simp add: mount_fuse_def Let_def split_beta split: option.splits)

lemma mount_fuse_emits: "emits bridge_event w (snd (snd (mount_fuse E v l w)))"
proof -
  let ?m = "MountUserFuse E (mMountUserId v) (mInternalPath v) l w"
  let ?v2 = "v\<lparr>mFuseMounted := True\<rparr>"
  have em: "emits bridge_event w (snd ?m)"
    by (simp add: emits_def emitted_def)
  have roll: "emits bridge_event w (snd (snd (doUnmount E ?v2 (fd_reset w'))))"
    if "emits bridge_event w w'" for w'
  proof -
    have "emits bridge_event w (fd_reset w')"
      by (rule emits_ext [OF that, where es = "[FdResetEv]"]) simp_all
    then show ?thesis
      using doUnmount_emits by (rule emits_trans)
  qed
  show ?thesis
  proof (cases "fst (ext_MountUserFuse E w (mMountUserId v) (mInternalPath v) l) = 0")
    case False
    then show ?thesis
      using em by (simp add: mount_fuse_start_failed)
  next
    case ok: True
    show ?thesis
    proof (cases "case mMountCallback v of None \<Rightarrow> True | Some cb \<Rightarrow> cb (mPath v) (mInternalPath v)")
      case False
      then obtain cb where cb: "mMountCallback v = Some cb" "\<not> cb (mPath v) (mInternalPath v)"
        by (auto split: option.splits)
      have "emits bridge_event w (snd (onVolumeChecking cb (mPath v) (mInternalPath v) (snd ?m)))"
        by (rule emits_ext [OF em, where es = "[OnVolumeCheckingEv (mPath v) (mInternalPath v)]"])
          simp_all
      then show ?thesis
        using ok cb roll by (simp add: mount_fuse_not_ready)
    next
      case True
      let ?w2 = "case mMountCallback v of
                  None \<Rightarrow> snd ?m
                | Some cb \<Rightarrow> snd (onVolumeChecking cb (mPath v) (mInternalPath v) (snd ?m))"
      have e2: "emits bridge_event w ?w2"
      proof (cases "mMountCallback v")
        case None
        then show ?thesis using em by simp
      next
        case (Some cb)
        have "emits bridge_event w (snd (onVolumeChecking cb (mPath v) (mInternalPath v) (snd ?m)))"
          by (rule emits_ext [OF em, where es = "[OnVolumeCheckingEv (mPath v) (mInternalPath v)]"])
            simp_all
        then show ?thesis using Some by simp
      qed
      have e3: "emits bridge_event w (snd (mountFuseBindMounts E ?v2 ?w2))"
        using e2 mountFuseBindMounts_emits by (rule emits_trans)
      show ?thesis
        using ok True e3 roll [OF e3] by (simp add: mount_fuse_ready Let_def)
    qed
  qed
qed

lemma doMount_emits:
  "emits (\<lambda>e. spin_up_event (mRawPath v) (getLabel v) e \<or> bridge_event e) w
     (snd (snd (doMount E v w)))"
proof -
  let ?Q = "\<lambda>e. spin_up_event (mRawPath v) (getLabel v) e \<or> bridge_event e"
  have a: "emits ?Q w (snd (mount_spin_up E v w))"
    by (rule emits_mono [OF mount_spin_up_emits]) simp
  have "emits ?Q (snd (mount_spin_up E v w))
          (snd (snd (mount_fuse E (stored_paths v) (getLabel v) (snd (mount_spin_up E v w)))))"
    by (rule emits_mono [OF mount_fuse_emits]) simp
  with a have b: "emits ?Q w
          (snd (snd (mount_fuse E (stored_paths v) (getLabel v) (snd (mount_spin_up E v w)))))"
    by (rule emits_trans)
  show ?thesis
    using a b by (simp add: doMount_unfold split_beta split: option.splits)
qed


section \<open>The sdcardfs driver\<close>

lemma emitted_mono:
  "emits P w w1 \<Longrightarrow> emits Q w1 w2 \<Longrightarrow> set (emitted w w1) \<subseteq> set (emitted w w2)"
  using emitted_trans [of P w w1 Q w2] by simp

lemmas eval_defs = doMount_def env_ok_def vol_owner_def EmulatedVolume_new_def getLabel_def
      prepare_mount_points_def fs_prepare_dir_def call_def log_event_def world0_def AID_ROOT_def
      GetDevice_def spawn_sdcardfs_def Let_def wait_for_sdcardfs_changed systemTime_def
      sdcardfs_mounted_def waitpid_def sdcardfs_argv_def kSdcardFsPath_def
      mount_fuse_def MountUserFuse_def onVolumeChecking_def fd_reset_def EIO_def
      doUnmount_def KillProcessesUsingPath_def unmountFuseBindMounts_def UnmountTree_def
      UnmountUserFuse_def ForceUnmount_def rmdir_def below_def
      mountFuseBindMounts_def doFuseBindMount_def access_def BindMount_def AID_MEDIA_RW_def

lemma spawn_sdcardfs_execl:
  assumes "ext_fork E w = ForkChild pid"
  shows "ExeclEv kSdcardFsPath (sdcardfs_argv (mRawPath v) label)
           \<in> set (emitted w (snd (spawn_sdcardfs E v label d w)))"
proof -
  let ?w1 = "log_event (ExeclEv kSdcardFsPath (sdcardfs_argv (mRawPath v) label)) (log_event ForkEv w)"
  let ?r = "wait_for_sdcardfs E d (mSdcardFsFull v) (systemTime ?w1) ?w1"
  let ?T = "\<lambda>e::event. True"
  have a: "emits ?T w ?w1" and m: "ExeclEv kSdcardFsPath (sdcardfs_argv (mRawPath v) label) \<in> set (emitted w ?w1)"
    by (simp_all add: emits_def emitted_def list_all_iff)
  have b: "emits ?T ?w1 (snd ?r)"
    by (rule emits_mono [OF wait_for_sdcardfs_emits]) simp
  have c: "emits ?T ?w1 (waitpid (int pid + 1) (sdcardfs_mounted label (snd ?r)))"
    by (rule emits_ext [OF b, where es = "[WaitpidEv (int pid + 1)]"]) simp_all
  have "emits ?T ?w1 (snd (spawn_sdcardfs E v label d w))"
    using assms b c by (simp add: spawn_sdcardfs_def Let_def split_beta split: option.splits)
  with a have "set (emitted w ?w1) \<subseteq> set (emitted w (snd (spawn_sdcardfs E v label d w)))"
    by (rule emitted_mono)
  with m show ?thesis
    by blast
qed

lemma mount_spin_up_execl:
  assumes sdc: "mUseSdcardFs v" and uid: "mMountUserId v = 0"
    and prep: "\<forall>w' p. fst (ext_fs_prepare_dir E w' p) = 0"
    and fork: "\<forall>w'. \<exists>pid. ext_fork E w' = ForkChild pid"
  shows "ExeclEv kSdcardFsPath (sdcardfs_argv (mRawPath v) (getLabel v))
           \<in> set (emitted w (snd (mount_spin_up E v w)))"
proof -
  let ?T = "\<lambda>e::event. True"
  let ?p = "prepare_mount_points E (stored_paths v) w"
  let ?g = "GetDevice E (''/mnt/runtime/full/'' @ getLabel v) (snd ?p)"
  let ?s = "spawn_sdcardfs E (stored_paths v) (getLabel v) (fst ?g) (snd ?g)"
  have np: "\<not> fst ?p"
    using prep by (simp add: prepare_mount_points_def split_beta)
  then have eq: "mount_spin_up E v w = ?s"
    using sdc uid by (simp add: mount_spin_up_def split_beta)
  obtain pid where f: "ext_fork E (snd ?g) = ForkChild pid"
    using fork by blast
  have x: "ExeclEv kSdcardFsPath (sdcardfs_argv (mRawPath v) (getLabel v)) \<in> set (emitted (snd ?g) (snd ?s))"
    using spawn_sdcardfs_execl [OF f, where v = "stored_paths v" and label = "getLabel v" and d = "fst ?g"]
    by simp
  have a: "emits ?T w (snd ?g)"
    by (rule emits_ext [OF emits_mono [OF prepare_mount_points_emits],
          where es = "[GetDeviceEv (''/mnt/runtime/full/'' @ getLabel v)]"]) simp_all
  have b: "emits ?T (snd ?g) (snd ?s)"
    by (rule emits_mono [OF spawn_sdcardfs_emits]) simp_all
  have "emitted w (snd ?s) = emitted w (snd ?g) @ emitted (snd ?g) (snd ?s)"
    using a b by (rule emitted_trans)
  with x show ?thesis
    by (simp add: eq)
qed

lemma doMount_keeps_spin_up_events:
  "set (emitted w (snd (mount_spin_up E v w))) \<subseteq> set (emitted w (snd (snd (doMount E v w))))"
proof -
  have a: "emits (spin_up_event (mRawPath v) (getLabel v)) w (snd (mount_spin_up E v w))"
    by (rule mount_spin_up_emits)
  have "emits bridge_event (snd (mount_spin_up E v w)) (snd (snd (doMount E v w)))"
    using mount_fuse_emits [where w = "snd (mount_spin_up E v w)" and E = E and v = "stored_paths v"
        and l = "getLabel v"]
    by (simp add: doMount_unfold split_beta split: option.splits)
  with a show ?thesis
    by (rule emitted_mono)
qed


text \<open>
  C6, as stated, fails: the argument list the child passes has one flag more than the
  claim lists. After \<open>-i\<close> comes \<open>-o\<close>, before the raw path and the label.
\<close>

theorem sdcardfs_argv_counterexample:
  "sdcardfs_argv ''/data/media'' ''emulated'' \<noteq> spec_sdcardfs_argv ''/data/media'' ''emulated''
   \<and> length (sdcardfs_argv ''/data/media'' ''emulated'')
       = Suc (length (spec_sdcardfs_argv ''/data/media'' ''emulated''))
   \<and> ExeclEv kSdcardFsPath (spec_sdcardfs_argv ''/data/media'' ''emulated'')
       \<notin> set (trace (snd (snd (doMount env_ok vol_owner world0))))
   \<and> ExeclEv ''/system/bin/sdcard''
        [''/system/bin/sdcard'', ''-u'', ''1023'', ''-g'', ''1023'', ''-m'', ''-w'', ''-G'', ''-i'',
         ''-o'', ''/data/media'', ''emulated'']
       \<in> set (trace (snd (snd (doMount env_ok vol_owner world0))))"
  by (simp add: eval_defs spec_sdcardfs_argv_def)


text \<open>
  C6, amended: every \<open>execl\<close> a \<open>doMount\<close> call leads to runs \<open>/system/bin/sdcard\<close> with
  the arguments \<open>-u 1023 -g 1023 -m -w -G -i -o\<close>, the raw path and the label; and on an
  sdcardfs device, for user 0, when the view directories can be prepared and the fork
  succeeds, that \<open>execl\<close> is made.
\<close>

theorem doMount_execl_argv:
  "(\<forall>prog args. ExeclEv prog args \<in> set (emitted w (snd (snd (doMount E v w)))) \<longrightarrow>
      prog = ''/system/bin/sdcard''
      \<and> args = [''/system/bin/sdcard'', ''-u'', ''1023'', ''-g'', ''1023'', ''-m'', ''-w'', ''-G'',
                ''-i'', ''-o'', mRawPath v, getLabel v])
   \<and> (mUseSdcardFs v \<and> mMountUserId v = 0
       \<and> (\<forall>w' p. fst (ext_fs_prepare_dir E w' p) = 0)
       \<and> (\<forall>w'. \<exists>pid. ext_fork E w' = ForkChild pid) \<longrightarrow>
      ExeclEv ''/system/bin/sdcard''
        [''/system/bin/sdcard'', ''-u'', ''1023'', ''-g'', ''1023'', ''-m'', ''-w'', ''-G'',
         ''-i'', ''-o'', mRawPath v, getLabel v]
        \<in> set (emitted w (snd (snd (doMount E v w)))))"
proof (intro conjI allI impI)
  fix prog args
  assume "ExeclEv prog args \<in> set (emitted w (snd (snd (doMount E v w))))"
  then have "spin_up_event (mRawPath v) (getLabel v) (ExeclEv prog args) \<or> bridge_event (ExeclEv prog args)"
    by (rule emits_emitted [OF doMount_emits])
  then show "prog = ''/system/bin/sdcard''"
    and "args = [''/system/bin/sdcard'', ''-u'', ''1023'', ''-g'', ''1023'', ''-m'', ''-w'', ''-G'',
                ''-i'', ''-o'', mRawPath v, getLabel v]"
    by (simp_all add: kSdcardFsPath_def sdcardfs_argv_def)
next
  assume h: "mUseSdcardFs v \<and> mMountUserId v = 0
       \<and> (\<forall>w' p. fst (ext_fs_prepare_dir E w' p) = 0)
       \<and> (\<forall>w'. \<exists>pid. ext_fork E w' = ForkChild pid)"
  then have "ExeclEv kSdcardFsPath (sdcardfs_argv (mRawPath v) (getLabel v))
           \<in> set (emitted w (snd (mount_spin_up E v w)))"
    by (intro mount_spin_up_execl) simp_all
  then have "ExeclEv kSdcardFsPath (sdcardfs_argv (mRawPath v) (getLabel v))
           \<in> set (emitted w (snd (snd (doMount E v w))))"
    using doMount_keeps_spin_up_events by blast
  then show "ExeclEv ''/system/bin/sdcard''
        [''/system/bin/sdcard'', ''-u'', ''1023'', ''-g'', ''1023'', ''-m'', ''-w'', ''-G'',
         ''-i'', ''-o'', mRawPath v, getLabel v]
        \<in> set (emitted w (snd (snd (doMount E v w))))"
    by (simp add: kSdcardFsPath_def sdcardfs_argv_def)
qed

theorem doMount_execl_argv_witness:
  "mUseSdcardFs vol_owner \<and> mMountUserId vol_owner = 0
   \<and> (\<forall>w' p. fst (ext_fs_prepare_dir env_ok w' p) = 0)
   \<and> (\<forall>w'. \<exists>pid. ext_fork env_ok w' = ForkChild pid)
   \<and> ExeclEv ''/system/bin/sdcard''
        [''/system/bin/sdcard'', ''-u'', ''1023'', ''-g'', ''1023'', ''-m'', ''-w'', ''-G'',
         ''-i'', ''-o'', ''/data/media'', ''emulated'']
        \<in> set (emitted world0 (snd (snd (doMount env_ok vol_owner world0))))"
proof -
  have a: "mUseSdcardFs vol_owner \<and> mMountUserId vol_owner = 0"
    by (simp add: vol_owner_def EmulatedVolume_new_def)
  have b: "\<forall>w' p. fst (ext_fs_prepare_dir env_ok w' p) = 0"
    by (simp add: env_ok_def)
  have c: "\<forall>w'. \<exists>pid. ext_fork env_ok w' = ForkChild pid"
    by (simp add: env_ok_def)
  have d: "mRawPath vol_owner = ''/data/media''" "getLabel vol_owner = ''emulated''"
    by (simp_all add: vol_owner_def EmulatedVolume_new_def getLabel_def)
  show ?thesis
    using doMount_execl_argv [where w = world0 and E = env_ok and v = vol_owner] a b c
    by (simp add: d)
qed



section \<open>The stored view paths\<close>






section \<open>The wait for sdcardfs\<close>

lemma emits_filter_empty:
  "emits P w w' \<Longrightarrow> (\<And>e. P e \<Longrightarrow> \<not> Q e) \<Longrightarrow> filter Q (emitted w w') = []"
  by (auto simp: emits_iff filter_empty_conv)

lemma wait_for_sdcardfs_polls:
  "emits (\<lambda>e. True) w (snd (wait_for_sdcardfs E d full start w))
   \<and> int (length (filter (\<lambda>e. e = UsleepEv 50000)
             (emitted w (snd (wait_for_sdcardfs E d full start w)))))
       \<le> 1 + max 0 ((5000999999 - (clock w - start)) div 50000000)"
proof (rule wait_for_sdcardfs_induct
    [where P = "\<lambda>w r. emits (\<lambda>e. True) w (snd r)
       \<and> int (length (filter (\<lambda>e. e = UsleepEv 50000) (emitted w (snd r))))
           \<le> 1 + max 0 ((5000999999 - (clock w - start)) div 50000000)"])
  fix w
  show "emits (\<lambda>e. True) w (snd (None :: status_t option, snd (GetDevice E full w)))
       \<and> int (length (filter (\<lambda>e. e = UsleepEv 50000)
            (emitted w (snd (None :: status_t option, snd (GetDevice E full w))))))
           \<le> 1 + max 0 ((5000999999 - (clock w - start)) div 50000000)"
    by (simp add: emits_def emitted_def)
next
  fix w
  show "emits (\<lambda>e. True) w (snd (Some (- ETIMEDOUT), usleep E 50000 (snd (GetDevice E full w))))
       \<and> int (length (filter (\<lambda>e. e = UsleepEv 50000)
            (emitted w (snd (Some (- ETIMEDOUT), usleep E 50000 (snd (GetDevice E full w)))))))
           \<le> 1 + max 0 ((5000999999 - (clock w - start)) div 50000000)"
    by (simp add: emits_def emitted_def)
next
  fix w and r :: "status_t option \<times> world"
  let ?w2 = "usleep E 50000 (snd (GetDevice E full w))"
  assume nt: "\<not> 5000 < nanoseconds_to_milliseconds (clock ?w2 - start)"
    and ih: "emits (\<lambda>e. True) ?w2 (snd r)
       \<and> int (length (filter (\<lambda>e. e = UsleepEv 50000) (emitted ?w2 (snd r))))
           \<le> 1 + max 0 ((5000999999 - (clock ?w2 - start)) div 50000000)"
  have a: "emits (\<lambda>e. True) w ?w2" and b: "emitted w ?w2 = [GetDeviceEv full, UsleepEv 50000]"
    by (simp_all add: emits_def emitted_def)
  have c: "emitted w (snd r) = emitted w ?w2 @ emitted ?w2 (snd r)"
    using a ih by (intro emitted_trans) auto
  have lt: "clock ?w2 - start < 5001000000"
    using nt by (auto simp: nanoseconds_to_milliseconds_def split: if_splits)
  have ge: "clock w + 50000000 \<le> clock ?w2"
    by simp
  have step: "1 + max 0 ((5000999999 - (clock ?w2 - start)) div 50000000)
        \<le> max 0 ((5000999999 - (clock w - start)) div 50000000)"
    using lt ge by auto
  have cnt: "int (length (filter (\<lambda>e. e = UsleepEv 50000) (emitted w (snd r))))
        = 1 + int (length (filter (\<lambda>e. e = UsleepEv 50000) (emitted ?w2 (snd r))))"
    by (simp add: c b)
  have ih2: "int (length (filter (\<lambda>e. e = UsleepEv 50000) (emitted ?w2 (snd r))))
           \<le> 1 + max 0 ((5000999999 - (clock ?w2 - start)) div 50000000)"
    using ih by blast
  have "int (length (filter (\<lambda>e. e = UsleepEv 50000) (emitted w (snd r))))
           \<le> 1 + max 0 ((5000999999 - (clock w - start)) div 50000000)"
    using step cnt ih2 by linarith
  moreover have "emits (\<lambda>e. True) w (snd r)"
    using a ih emits_trans by blast
  ultimately show "emits (\<lambda>e. True) w (snd r)
       \<and> int (length (filter (\<lambda>e. e = UsleepEv 50000) (emitted w (snd r))))
           \<le> 1 + max 0 ((5000999999 - (clock w - start)) div 50000000)"
    by blast
qed

lemma wait_for_sdcardfs_deadline:
  assumes ov: "\<forall>w'. int (ext_usleep_overrun E w') \<le> ov"
  shows "clock w - start < 5001000000 \<longrightarrow> fst (wait_for_sdcardfs E d full start w) \<noteq> None \<longrightarrow>
         clock (snd (wait_for_sdcardfs E d full start w)) - start \<le> 5050999999 + ov"
proof (rule wait_for_sdcardfs_induct
    [where P = "\<lambda>w r. clock w - start < 5001000000 \<longrightarrow> fst r \<noteq> None \<longrightarrow>
         clock (snd r) - start \<le> 5050999999 + ov"])
  fix w
  show "clock w - start < 5001000000 \<longrightarrow>
        fst (None :: status_t option, snd (GetDevice E full w)) \<noteq> None \<longrightarrow>
        clock (snd (None :: status_t option, snd (GetDevice E full w))) - start \<le> 5050999999 + ov"
    by simp
next
  fix w
  have "int (ext_usleep_overrun E (snd (GetDevice E full w))) \<le> ov"
    using ov by blast
  then show "clock w - start < 5001000000 \<longrightarrow>
        fst (Some (- ETIMEDOUT), usleep E 50000 (snd (GetDevice E full w))) \<noteq> None \<longrightarrow>
        clock (snd (Some (- ETIMEDOUT), usleep E 50000 (snd (GetDevice E full w)))) - start
          \<le> 5050999999 + ov"
    by simp
next
  fix w and r :: "status_t option \<times> world"
  let ?w2 = "usleep E 50000 (snd (GetDevice E full w))"
  assume nt: "\<not> 5000 < nanoseconds_to_milliseconds (clock ?w2 - start)"
    and ih: "clock ?w2 - start < 5001000000 \<longrightarrow> fst r \<noteq> None \<longrightarrow>
         clock (snd r) - start \<le> 5050999999 + ov"
  have "clock ?w2 - start < 5001000000"
    using nt by (auto simp: nanoseconds_to_milliseconds_def split: if_splits)
  with ih show "clock w - start < 5001000000 \<longrightarrow> fst r \<noteq> None \<longrightarrow>
         clock (snd r) - start \<le> 5050999999 + ov"
    by simp
qed

lemma mount_spin_up_stuck:
  assumes sdc: "mUseSdcardFs v" and uid: "mMountUserId v = 0"
    and prep: "\<forall>w' p. fst (ext_fs_prepare_dir E w' p) = 0"
    and fork: "\<forall>w'. \<exists>pid. ext_fork E w' = ForkChild pid"
    and stuck: "\<forall>w'. ext_GetDevice E w' (''/mnt/runtime/full/'' @ getLabel v) = d"
  shows "fst (mount_spin_up E v w) = Some (- ETIMEDOUT)"
    and "5000 < nanoseconds_to_milliseconds (clock (snd (mount_spin_up E v w)) - clock w)"
    and "(\<forall>w'. int (ext_usleep_overrun E w') \<le> ov) \<longrightarrow>
         clock (snd (mount_spin_up E v w)) - clock w \<le> 5050999999 + ov"
    and "length (filter (\<lambda>e. e = UsleepEv 50000) (emitted w (snd (mount_spin_up E v w)))) \<le> 101"
proof -
  let ?full = "''/mnt/runtime/full/'' @ getLabel v"
  let ?p = "prepare_mount_points E (stored_paths v) w"
  let ?g = "GetDevice E ?full (snd ?p)"
  let ?s = "spawn_sdcardfs E (stored_paths v) (getLabel v) (fst ?g) (snd ?g)"
  let ?w1 = "log_event (ExeclEv kSdcardFsPath (sdcardfs_argv (mRawPath v) (getLabel v)))
               (log_event ForkEv (snd ?g))"
  let ?r = "wait_for_sdcardfs E d ?full (clock w) ?w1"
  have np: "\<not> fst ?p"
    using prep by (simp add: prepare_mount_points_def split_beta)
  obtain pid where f: "ext_fork E (snd ?g) = ForkChild pid"
    using fork by blast
  have d: "fst ?g = d"
    using stuck by simp
  have to: "fst ?r = Some (- ETIMEDOUT)"
    using stuck by (rule wait_for_sdcardfs_stuck)
  have eq: "mount_spin_up E v w = (Some (- ETIMEDOUT), snd ?r)"
    using np sdc uid f d to
    by (simp add: mount_spin_up_def spawn_sdcardfs_def split_beta Let_def systemTime_def)
  show "fst (mount_spin_up E v w) = Some (- ETIMEDOUT)"
    by (simp add: eq)
  show "5000 < nanoseconds_to_milliseconds (clock (snd (mount_spin_up E v w)) - clock w)"
    using wait_for_sdcardfs_result [where E = E and d = d and full = ?full and start = "clock w" and w = ?w1] to by (simp add: eq)
  show "(\<forall>w'. int (ext_usleep_overrun E w') \<le> ov) \<longrightarrow>
         clock (snd (mount_spin_up E v w)) - clock w \<le> 5050999999 + ov"
  proof
    assume "\<forall>w'. int (ext_usleep_overrun E w') \<le> ov"
    then show "clock (snd (mount_spin_up E v w)) - clock w \<le> 5050999999 + ov"
      using wait_for_sdcardfs_deadline [where E = E and ov = ov and w = ?w1 and start = "clock w"
          and d = d and full = ?full] to
      by (simp add: eq)
  qed
  have a: "emits (\<lambda>e. e \<noteq> UsleepEv 50000) w ?w1"
    by (simp add: prepare_mount_points_def split_beta emits_def emitted_def)
  have b: "emits (\<lambda>e. True) ?w1 (snd ?r)"
    and c: "int (length (filter (\<lambda>e. e = UsleepEv 50000) (emitted ?w1 (snd ?r)))) \<le> 101"
    using wait_for_sdcardfs_polls [where w = ?w1 and E = E and d = d and full = ?full and start = "clock w"] by simp_all
  have "emitted w (snd ?r) = emitted w ?w1 @ emitted ?w1 (snd ?r)"
    using a b by (rule emitted_trans)
  moreover have "filter (\<lambda>e. e = UsleepEv 50000) (emitted w ?w1) = []"
    using a by (rule emits_filter_empty) simp
  ultimately show "length (filter (\<lambda>e. e = UsleepEv 50000) (emitted w (snd (mount_spin_up E v w)))) \<le> 101"
    using c by (simp add: eq)
qed

text \<open>
  C2: on an sdcardfs device, for user 0, when the view directories can be prepared, the
  fork succeeds and the device of the full view is the same whenever it is read,
  \<open>doMount\<close> returns \<open>-ETIMEDOUT\<close>. It returns (the wait is a total function) with more
  than 5000ms gone on the clock since the call began, after at most 101 sleeps of 50ms,
  and, when no sleep overruns by more than \<open>ov\<close> nanoseconds, with at most
  \<open>5050999999 + ov\<close> nanoseconds gone. The calls made are those of the first part of
  \<open>doMount\<close> only, without the \<open>waitpid\<close>: nothing is killed and the child is not reaped.
  The mount table, the bridges and the bridge flag are as before.
\<close>

theorem doMount_sdcardfs_timeout:
  assumes sdc: "mUseSdcardFs v" and uid: "mMountUserId v = 0"
    and prep: "\<forall>w' p. fst (ext_fs_prepare_dir E w' p) = 0"
    and fork: "\<forall>w'. \<exists>pid. ext_fork E w' = ForkChild pid"
    and stuck: "\<forall>w'. ext_GetDevice E w' (''/mnt/runtime/full/'' @ getLabel v) = d"
  shows "case doMount E v w of (st, v', w') \<Rightarrow>
     st = - ETIMEDOUT
     \<and> 5000 < nanoseconds_to_milliseconds (clock w' - clock w)
     \<and> ((\<forall>w1. int (ext_usleep_overrun E w1) \<le> ov) \<longrightarrow> clock w' - clock w \<le> 5050999999 + ov)
     \<and> length (filter (\<lambda>e. e = UsleepEv 50000) (emitted w w')) \<le> 101
     \<and> (\<forall>e\<in>set (emitted w w').
           spin_up_event (mRawPath v) (getLabel v) e \<and> (\<forall>pid. e \<noteq> WaitpidEv pid))
     \<and> (\<forall>p. KillProcessesUsingPathEv p \<notin> set (emitted w w'))
     \<and> mounts w' = mounts w \<and> bridges w' = bridges w \<and> mFuseMounted v' = mFuseMounted v"
proof -
  note s = mount_spin_up_stuck(1) [OF sdc uid prep fork stuck, where w = w]
    mount_spin_up_stuck(2) [OF sdc uid prep fork stuck, where w = w]
    mount_spin_up_stuck(3) [OF sdc uid prep fork stuck, where w = w and ov = ov]
    mount_spin_up_stuck(4) [OF sdc uid prep fork stuck, where w = w]
  have eq: "doMount E v w = (- ETIMEDOUT, stored_paths v, snd (mount_spin_up E v w))"
    using s(1) by (simp add: doMount_unfold split_beta)
  have e: "emits (\<lambda>e. spin_up_event (mRawPath v) (getLabel v) e \<and> (\<forall>pid. e \<noteq> WaitpidEv pid)) w
           (snd (mount_spin_up E v w))"
    and m: "mounts (snd (mount_spin_up E v w)) = mounts w"
    using mount_spin_up_early [OF s(1)] by simp_all
  have ev: "\<forall>e\<in>set (emitted w (snd (mount_spin_up E v w))).
           spin_up_event (mRawPath v) (getLabel v) e \<and> (\<forall>pid. e \<noteq> WaitpidEv pid)"
    using emits_emitted [OF e] by blast
  then have nk: "\<forall>p. KillProcessesUsingPathEv p \<notin> set (emitted w (snd (mount_spin_up E v w)))"
    by fastforce
  have b: "bridges (snd (mount_spin_up E v w)) = bridges w"
    using mount_spin_up_keeps [where E = E and v = v and w = w] by simp
  show ?thesis
    using s(2,3,4) ev nk m b by (simp add: eq)
qed

theorem doMount_sdcardfs_timeout_witness:
  "mUseSdcardFs vol_owner \<and> mMountUserId vol_owner = 0
   \<and> (\<forall>w' p. fst (ext_fs_prepare_dir env_stuck w' p) = 0)
   \<and> (\<forall>w'. \<exists>pid. ext_fork env_stuck w' = ForkChild pid)
   \<and> (\<forall>w'. ext_GetDevice env_stuck w' (''/mnt/runtime/full/'' @ getLabel vol_owner) = 0)
   \<and> (\<forall>w1. int (ext_usleep_overrun env_stuck w1) \<le> 0)
   \<and> (case doMount env_stuck vol_owner world0 of (st, v', w') \<Rightarrow>
         st = - 110 \<and> 5000 < nanoseconds_to_milliseconds (clock w' - clock world0)
         \<and> clock w' - clock world0 \<le> 5050999999
         \<and> length (filter (\<lambda>e. e = UsleepEv 50000) (emitted world0 w')) \<le> 101
         \<and> (\<forall>p. KillProcessesUsingPathEv p \<notin> set (emitted world0 w')))"
proof -
  have a: "mUseSdcardFs vol_owner" "mMountUserId vol_owner = 0"
    by (simp_all add: vol_owner_def EmulatedVolume_new_def)
  have b: "\<forall>w' p. fst (ext_fs_prepare_dir env_stuck w' p) = 0"
    "\<forall>w'. \<exists>pid. ext_fork env_stuck w' = ForkChild pid"
    "\<forall>w'. ext_GetDevice env_stuck w' (''/mnt/runtime/full/'' @ getLabel vol_owner) = 0"
    "\<forall>w1. int (ext_usleep_overrun env_stuck w1) \<le> 0"
    by (simp_all add: env_stuck_def env_ok_def)
  show ?thesis
    using doMount_sdcardfs_timeout [OF a b(1,2,3), where w = world0 and ov = 0] a b
    by (simp add: split_beta ETIMEDOUT_def)
qed

section \<open>The readiness callback\<close>

declare emitted_append [simp del]









end
